theory Spec2Isabelle
  imports Main
begin

section \<open>Ports, linkage and output buffers\<close>

text \<open>
  The nodes of \<^verbatim>\<open>libraries/nodes\<close> are verified here over a shallow embedding.
  An output port is identified by its owning node and its position in the node's list of
  outputs (\<^verbatim>\<open>CompilableNode({ &_input }, { &_val, &_argVal })\<close> lists \<^verbatim>\<open>_val\<close> first and
  \<^verbatim>\<open>_argVal\<close> second). The element type \<^verbatim>\<open>ValueType\<close> is a type variable with a comparison
  \<open><\<close>, of which the definitions assume nothing: on the integer instantiations it is a
  linear order, on \<^verbatim>\<open>float\<close> and \<^verbatim>\<open>double\<close> it is false whenever an operand is NaN.
\<close>

type_synonym node_id = nat
type_synonym port_id = "node_id \<times> nat"

text \<open>
  Modelled from the spec: \<^verbatim>\<open>model::PortElements\<close> (not in src), the upstream linkage of an
  input port: "Input ports reference an upstream output port (ownership: weak reference)",
  possibly as "an indirect composition of other ports' elements". Each element names an
  output port and an index into that port's buffer.
\<close>

type_synonym PortElements = "(port_id \<times> nat) list"

text \<open>
  Modelled from the spec: \<^verbatim>\<open>model::InputPort\<close> and \<^verbatim>\<open>model::OutputPort\<close> (not in src):
  "a named, typed handle to a fixed-length sequence of values".
\<close>

record InputPort =
  in_name :: string
  in_elements :: PortElements

record OutputPort =
  out_name :: string
  out_id :: port_id
  out_size :: nat

definition Size :: "InputPort \<Rightarrow> nat" where
  "Size p = length (in_elements p)"

text \<open>
  The buffer an output port owns. \<^verbatim>\<open>_val\<close> is an \<^verbatim>\<open>OutputPort<ValueType>\<close>, \<^verbatim>\<open>_argVal\<close> an
  \<^verbatim>\<open>OutputPort<int>\<close>; an \<^verbatim>\<open>int\<close> has 32 bits, and a conversion to it wraps around.
\<close>

datatype 'a buffer = Values "'a list" | Ints "int list"

type_synonym 'a store = "port_id \<Rightarrow> 'a buffer option"

definition to_int32 :: "int \<Rightarrow> int" where
  "to_int32 k = (k + 2 ^ 31) mod 2 ^ 32 - 2 ^ 31"

datatype error =
    ReadOutOfRange
  | UnresolvedElement
  | ScalarExpected
  | InvalidCode
  | NonTermination
  | MissingField string
  | UnmappedPort

text \<open>
  Modelled from the spec: \<^verbatim>\<open>InputPort::GetValue\<close> and \<^verbatim>\<open>OutputPort::SetOutput\<close> (not in
  src). An input port "never owns its source, only observes it": its value is gathered,
  element by element, from the buffers of the output ports it references. An output port
  "owns its computed buffer"; \<^verbatim>\<open>SetOutput\<close> replaces it.
\<close>

definition GetElement :: "'a store \<Rightarrow> port_id \<times> nat \<Rightarrow> error + 'a" where
  "GetElement s e =
     (case s (fst e) of
        Some (Values vs) \<Rightarrow> if snd e < length vs then Inr (vs ! snd e) else Inl UnresolvedElement
      | _ \<Rightarrow> Inl UnresolvedElement)"

primrec GetElements :: "'a store \<Rightarrow> PortElements \<Rightarrow> error + 'a list" where
  "GetElements s [] = Inr []"
| "GetElements s (e # es) =
     (case GetElement s e of
        Inl err \<Rightarrow> Inl err
      | Inr v \<Rightarrow> (case GetElements s es of Inl err \<Rightarrow> Inl err | Inr vs \<Rightarrow> Inr (v # vs)))"

definition GetValue :: "'a store \<Rightarrow> InputPort \<Rightarrow> error + 'a list" where
  "GetValue s p = GetElements s (in_elements p)"

definition SetOutput :: "OutputPort \<Rightarrow> 'a buffer \<Rightarrow> 'a store \<Rightarrow> 'a store" where
  "SetOutput p b s = s(out_id p \<mapsto> b)"

section \<open>ExtremalValueNode\<close>

text \<open>
  The port names \<^verbatim>\<open>inputPortName\<close>, \<^verbatim>\<open>valPortName\<close> and \<^verbatim>\<open>argValPortName\<close> are constants of
  the class declaration (not in src); they are taken as a parameter.
\<close>

record PortNames =
  inputPortName :: string
  valPortName :: string
  argValPortName :: string

record ExtremalValueNode =
  nodeId :: node_id
  isMax :: bool
  input :: InputPort
  val :: OutputPort
  argVal :: OutputPort

text \<open>
  The two constructors. Neither inspects its argument: the ports are built from the
  linkage handed in, and both outputs get size 1. The first argument after the names is the
  template parameter \<^verbatim>\<open>max\<close>, the second the identity of the new object.
\<close>

definition ExtremalValueNode_default :: "PortNames \<Rightarrow> bool \<Rightarrow> node_id \<Rightarrow> ExtremalValueNode" where
  "ExtremalValueNode_default nm mx this =
     \<lparr> nodeId = this, isMax = mx,
       input = \<lparr> in_name = inputPortName nm, in_elements = [] \<rparr>,
       val = \<lparr> out_name = valPortName nm, out_id = (this, 0), out_size = 1 \<rparr>,
       argVal = \<lparr> out_name = argValPortName nm, out_id = (this, 1), out_size = 1 \<rparr> \<rparr>"

definition ExtremalValueNode_ctor ::
    "PortNames \<Rightarrow> bool \<Rightarrow> node_id \<Rightarrow> PortElements \<Rightarrow> ExtremalValueNode" where
  "ExtremalValueNode_ctor nm mx this inp =
     \<lparr> nodeId = this, isMax = mx,
       input = \<lparr> in_name = inputPortName nm, in_elements = inp \<rparr>,
       val = \<lparr> out_name = valPortName nm, out_id = (this, 0), out_size = 1 \<rparr>,
       argVal = \<lparr> out_name = argValPortName nm, out_id = (this, 1), out_size = 1 \<rparr> \<rparr>"

subsection \<open>Compute\<close>

text \<open>
  \<^verbatim>\<open>std::max_element\<close> and \<^verbatim>\<open>std::min_element\<close> over the whole vector, with iterators as
  positions: \<^verbatim>\<open>begin\<close> is 0 and \<^verbatim>\<open>end\<close> is the length. Both return \<^verbatim>\<open>end\<close> on an empty range,
  and otherwise walk \<^verbatim>\<open>first\<close> from the second element on, replacing the candidate only
  on a strict \<^verbatim>\<open><\<close>.
\<close>

function max_element_loop :: "'a::ord list \<Rightarrow> nat \<Rightarrow> nat \<Rightarrow> nat" where
  "max_element_loop V largest first =
     (if first < length V
      then max_element_loop V (if V ! largest < V ! first then first else largest) (Suc first)
      else largest)"
  by pat_completeness auto
termination
  by (relation "measure (\<lambda>(V, largest, first). length V - first)") auto

function min_element_loop :: "'a::ord list \<Rightarrow> nat \<Rightarrow> nat \<Rightarrow> nat" where
  "min_element_loop V smallest first =
     (if first < length V
      then min_element_loop V (if V ! first < V ! smallest then first else smallest) (Suc first)
      else smallest)"
  by pat_completeness auto
termination
  by (relation "measure (\<lambda>(V, smallest, first). length V - first)") auto

declare max_element_loop.simps [simp del]
declare min_element_loop.simps [simp del]

definition max_element :: "'a::ord list \<Rightarrow> nat" where
  "max_element V = (if V = [] then length V else max_element_loop V 0 1)"

definition min_element :: "'a::ord list \<Rightarrow> nat" where
  "min_element V = (if V = [] then length V else min_element_loop V 0 1)"

text \<open>
  \<^verbatim>\<open>Compute\<close> reads the input, takes the iterator \<^verbatim>\<open>result\<close>, dereferences it and stores the
  value and \<^verbatim>\<open>(int)index\<close> in the two outputs. Dereferencing \<^verbatim>\<open>end\<close> reads outside the
  vector; that is the error \<open>ReadOutOfRange\<close>.
\<close>

definition Compute :: "ExtremalValueNode \<Rightarrow> 'a::ord store \<Rightarrow> error + 'a store" where
  "Compute n s =
     (case GetValue s (input n) of
        Inl err \<Rightarrow> Inl err
      | Inr inputValues \<Rightarrow>
          (let result = (if isMax n then max_element inputValues else min_element inputValues)
           in if result < length inputValues
              then (let v = inputValues ! result;
                        index = int result
                    in Inr (SetOutput (argVal n) (Ints [to_int32 index])
                             (SetOutput (val n) (Values [v]) s)))
              else Inl ReadOutOfRange))"

subsection \<open>Code generation\<close>

text \<open>
  Modelled from the spec: the IR function emitter (\<^verbatim>\<open>emitters::IRFunctionEmitter\<close>, not in
  src), "an opaque builder API" with the primitives "declare a typed local variable,
  load/store, indexed element access, emit a counted loop with a body callback, emit a
  conditional with a body callback, and resolve a port's already-materialized native
  location". The emitted code is a list of instructions. A pointer is the input's
  variable (\<^verbatim>\<open>EnsurePortEmitted(input)\<close>, holding the values the input port carries), a
  local variable, or the variable of an output port. \<open>LoopIndex\<close> is the index value a loop
  hands to its body callback; \<open>PortElementVariable i\<close> is
  \<^verbatim>\<open>LoadPortElementVariable(input.GetInputElement(i))\<close>.
\<close>

datatype VariableType = PortValueType | Int32

datatype BinaryPredicateType = greater | less

type_synonym TypedComparison = BinaryPredicateType

datatype pointer = InputVariable | LocalVariable string | PortVariable port_id

datatype expr =
    Literal int
  | LoopIndex
  | ValueAt pointer expr
  | PortElementVariable nat
  | Load pointer

datatype instr =
    Variable VariableType string
  | Store pointer expr
  | StoreZero pointer
  | If TypedComparison expr expr "instr list"
  | For nat nat nat "instr list"

definition IsMaxNode :: "ExtremalValueNode \<Rightarrow> bool" where
  "IsMaxNode n = isMax n"

definition GetComparison :: "ExtremalValueNode \<Rightarrow> TypedComparison" where
  "GetComparison n = (if IsMaxNode n then greater else less)"

definition CompileLoop :: "ExtremalValueNode \<Rightarrow> instr list" where
  "CompileLoop n =
     (let inputVal = InputVariable;
          outVal = PortVariable (out_id (val n));
          outArgVal = PortVariable (out_id (argVal n));
          inputType = PortValueType;
          numInputs = Size (input n);
          bestVal = LocalVariable ''bestVal'';
          bestIndex = LocalVariable ''bestArgVal'';
          val0 = ValueAt inputVal (Literal 0)
      in [Variable inputType ''bestVal'',
          Variable Int32 ''bestArgVal'',
          Store bestVal val0,
          StoreZero bestIndex,
          For 1 numInputs 1
            [If (GetComparison n) (ValueAt inputVal LoopIndex) (Load bestVal)
               [Store bestVal (ValueAt inputVal LoopIndex),
                Store bestIndex LoopIndex]],
          Store outVal (Load bestVal),
          Store outArgVal (Load bestIndex)])"

definition CompileExpanded :: "ExtremalValueNode \<Rightarrow> instr list" where
  "CompileExpanded n =
     (let outVal = PortVariable (out_id (val n));
          outArgVal = PortVariable (out_id (argVal n));
          inputType = PortValueType;
          numInputs = Size (input n);
          bestVal = LocalVariable ''bestVal'';
          bestIndex = LocalVariable ''bestArgVal'';
          val0 = PortElementVariable 0
      in [Variable inputType ''bestVal'',
          Variable Int32 ''bestArgVal'',
          Store bestVal val0,
          StoreZero bestIndex]
         @ map (\<lambda>i. If (GetComparison n) (PortElementVariable i) (Load bestVal)
                        [Store bestVal (PortElementVariable i),
                         Store bestIndex (Literal (to_int32 (int i)))])
               [1..<numInputs]
         @ [Store outVal (Load bestVal),
            Store outArgVal (Load bestIndex)])"

text \<open>
  Modelled from the spec: \<^verbatim>\<open>VerifyIsScalar\<close> (not in src): "a port expected to be scalar but
  sized >1 (or vice versa) [...] detected via an explicit shape check before emission, and
  is fatal to the compile pass".
\<close>

definition VerifyIsScalar :: "OutputPort \<Rightarrow> error + unit" where
  "VerifyIsScalar p = (if out_size p = 1 then Inr () else Inl ScalarExpected)"

record CompilerOptions =
  unrollLoops :: bool

record IRMapCompiler =
  GetCompilerOptions :: CompilerOptions

text \<open>
  \<^verbatim>\<open>Compile\<close>. The predicate \<^verbatim>\<open>IsPureVector\<close> (not in src) is a parameter. The result is the
  code emitted into the function, or the error of a failed shape check.
\<close>

definition Compile ::
    "(InputPort \<Rightarrow> bool) \<Rightarrow> IRMapCompiler \<Rightarrow> ExtremalValueNode \<Rightarrow> error + instr list" where
  "Compile IsPureVector compiler n =
     (case VerifyIsScalar (val n) of
        Inl err \<Rightarrow> Inl err
      | Inr _ \<Rightarrow>
          (case VerifyIsScalar (argVal n) of
             Inl err \<Rightarrow> Inl err
           | Inr _ \<Rightarrow>
               if IsPureVector (input n) \<and> \<not> unrollLoops (GetCompilerOptions compiler)
               then Inr (CompileLoop n)
               else Inr (CompileExpanded n)))"

subsection \<open>Running emitted code\<close>

text \<open>
  Modelled from the spec: what the emitted instructions do when the compiled function
  runs (the IR emission library and the target are not in src). A local variable holds
  one value of its declared type; a store into an \<open>Int32\<close> variable or into an output
  port of integers keeps 32 bits. The "counted loop" \<open>For b e st\<close> runs its body with the
  index \<open>b\<close>, \<open>b + st\<close>, ... while the index is below \<open>e\<close>. A conditional compares two
  element values with the node's comparison and runs its body when it holds.
\<close>

datatype 'a ir_value = Element 'a | Integer int

record 'a memory =
  locals :: "string \<Rightarrow> (VariableType \<times> 'a ir_value option) option"
  ports :: "'a store"

definition read_at :: "'a list \<Rightarrow> 'a memory \<Rightarrow> pointer \<Rightarrow> int \<Rightarrow> error + 'a ir_value" where
  "read_at V m p k =
     (case p of
        InputVariable \<Rightarrow>
          if 0 \<le> k \<and> k < int (length V) then Inr (Element (V ! nat k)) else Inl ReadOutOfRange
      | LocalVariable x \<Rightarrow>
          (case locals m x of
             Some (ty, Some v) \<Rightarrow> if k = 0 then Inr v else Inl ReadOutOfRange
           | _ \<Rightarrow> Inl InvalidCode)
      | PortVariable q \<Rightarrow>
          (case ports m q of
             Some (Values vs) \<Rightarrow>
               if 0 \<le> k \<and> k < int (length vs) then Inr (Element (vs ! nat k))
               else Inl ReadOutOfRange
           | Some (Ints ks) \<Rightarrow>
               if 0 \<le> k \<and> k < int (length ks) then Inr (Integer (ks ! nat k))
               else Inl ReadOutOfRange
           | None \<Rightarrow> Inl InvalidCode))"

definition write_to :: "'a memory \<Rightarrow> pointer \<Rightarrow> 'a ir_value \<Rightarrow> error + 'a memory" where
  "write_to m p v =
     (case p of
        InputVariable \<Rightarrow> Inl InvalidCode
      | LocalVariable x \<Rightarrow>
          (case locals m x of
             None \<Rightarrow> Inl InvalidCode
           | Some (ty, _) \<Rightarrow>
               (case (ty, v) of
                  (PortValueType, Element e) \<Rightarrow>
                    Inr (m\<lparr>locals := (locals m)(x \<mapsto> (ty, Some (Element e)))\<rparr>)
                | (Int32, Integer k) \<Rightarrow>
                    Inr (m\<lparr>locals := (locals m)(x \<mapsto> (ty, Some (Integer (to_int32 k))))\<rparr>)
                | _ \<Rightarrow> Inl InvalidCode))
      | PortVariable q \<Rightarrow>
          Inr (m\<lparr>ports := (ports m)(q \<mapsto>
                 (case v of Element e \<Rightarrow> Values [e] | Integer k \<Rightarrow> Ints [to_int32 k]))\<rparr>))"

fun eval :: "'a list \<Rightarrow> int option \<Rightarrow> 'a memory \<Rightarrow> expr \<Rightarrow> error + 'a ir_value" where
  "eval V i m (Literal k) = Inr (Integer k)"
| "eval V i m LoopIndex = (case i of None \<Rightarrow> Inl InvalidCode | Some k \<Rightarrow> Inr (Integer k))"
| "eval V i m (ValueAt p e) =
     (case eval V i m e of
        Inl err \<Rightarrow> Inl err
      | Inr (Integer k) \<Rightarrow> read_at V m p k
      | Inr (Element _) \<Rightarrow> Inl InvalidCode)"
| "eval V i m (PortElementVariable k) =
     (if k < length V then Inr (Element (V ! k)) else Inl ReadOutOfRange)"
| "eval V i m (Load p) = read_at V m p 0"

definition holds :: "TypedComparison \<Rightarrow> 'a::ord \<Rightarrow> 'a \<Rightarrow> bool" where
  "holds c a b = (case c of greater \<Rightarrow> b < a | less \<Rightarrow> a < b)"

definition counters :: "nat \<Rightarrow> nat \<Rightarrow> nat \<Rightarrow> nat list" where
  "counters b e st = map (\<lambda>j. b + j * st) [0..<(e - b + st - 1) div st]"

fun exec_instr :: "'a::ord list \<Rightarrow> int option \<Rightarrow> instr \<Rightarrow> 'a memory \<Rightarrow> error + 'a memory"
and exec_block :: "'a::ord list \<Rightarrow> int option \<Rightarrow> instr list \<Rightarrow> 'a memory \<Rightarrow> error + 'a memory"
where
  "exec_instr V i (Variable ty x) m = Inr (m\<lparr>locals := (locals m)(x \<mapsto> (ty, None))\<rparr>)"
| "exec_instr V i (Store p e) m =
     (case eval V i m e of Inl err \<Rightarrow> Inl err | Inr v \<Rightarrow> write_to m p v)"
| "exec_instr V i (StoreZero p) m = write_to m p (Integer 0)"
| "exec_instr V i (If c a b body) m =
     (case eval V i m a of
        Inl err \<Rightarrow> Inl err
      | Inr x \<Rightarrow>
          (case eval V i m b of
             Inl err \<Rightarrow> Inl err
           | Inr y \<Rightarrow>
               (case (x, y) of
                  (Element u, Element w) \<Rightarrow> if holds c u w then exec_block V i body m else Inr m
                | _ \<Rightarrow> Inl InvalidCode)))"
| "exec_instr V i (For b e st body) m =
     (if st = 0 then (if b < e then Inl NonTermination else Inr m)
      else fold (\<lambda>k r. case r of Inl err \<Rightarrow> Inl err
                               | Inr m' \<Rightarrow> exec_block V (Some (int k)) body m')
             (counters b e st) (Inr m))"
| "exec_block V i [] m = Inr m"
| "exec_block V i (x # xs) m =
     (case exec_instr V i x m of Inl err \<Rightarrow> Inl err | Inr m' \<Rightarrow> exec_block V i xs m')"

text \<open>
  Running the code of one node: the function starts with no local variable, on the output
  buffers \<open>s\<close> and with the input's variable holding \<open>V\<close>; what remains afterwards is the
  output buffers.
\<close>

definition run :: "instr list \<Rightarrow> 'a::ord list \<Rightarrow> 'a store \<Rightarrow> error + 'a store" where
  "run code V s =
     (case exec_block V None code \<lparr> locals = (\<lambda>x. None), ports = s \<rparr> of
        Inl err \<Rightarrow> Inl err
      | Inr m \<Rightarrow> Inr (ports m))"

subsection \<open>Serialization\<close>

text \<open>
  Modelled from the spec: the archive (\<^verbatim>\<open>utilities::Archiver\<close>, \<^verbatim>\<open>utilities::Unarchiver\<close> and
  the ports' own serialization, not in src), "a generic keyed read/write contract:
  \<^verbatim>\<open>archiver[name] << value\<close> / \<^verbatim>\<open>archiver[name] >> value\<close> for each named field (ports,
  coefficient tables)". Of an input port the archive keeps "the input port's upstream
  linkage", of an output port its "declared size", of a filter bank "every filter's full
  weight vector". "A field name absent on read that is required" is fatal to the load.
\<close>

datatype 'a archived = InputLinkage PortElements | OutputSize nat | FilterTable "'a list list"

type_synonym 'a archive = "string \<Rightarrow> 'a archived option"

definition archive_input :: "string \<Rightarrow> InputPort \<Rightarrow> 'a archive \<Rightarrow> 'a archive" where
  "archive_input name p archiver = archiver(name \<mapsto> InputLinkage (in_elements p))"

definition archive_output :: "string \<Rightarrow> OutputPort \<Rightarrow> 'a archive \<Rightarrow> 'a archive" where
  "archive_output name p archiver = archiver(name \<mapsto> OutputSize (out_size p))"

definition unarchive_input :: "string \<Rightarrow> 'a archive \<Rightarrow> InputPort \<Rightarrow> error + InputPort" where
  "unarchive_input name archiver p =
     (case archiver name of
        Some (InputLinkage es) \<Rightarrow> Inr (p\<lparr>in_elements := es\<rparr>)
      | _ \<Rightarrow> Inl (MissingField name))"

definition unarchive_output :: "string \<Rightarrow> 'a archive \<Rightarrow> OutputPort \<Rightarrow> error + OutputPort" where
  "unarchive_output name archiver p =
     (case archiver name of
        Some (OutputSize k) \<Rightarrow> Inr (p\<lparr>out_size := k\<rparr>)
      | _ \<Rightarrow> Inl (MissingField name))"

text \<open>
  Modelled from the spec: \<^verbatim>\<open>Node::WriteToArchive\<close> and \<^verbatim>\<open>Node::ReadFromArchive\<close> of the base
  class (not in src). The node persists "the input port's upstream linkage and both output
  ports' declared sizes; no other owned state", so the base class adds no field of the
  node's here.
\<close>

definition Node_WriteToArchive :: "ExtremalValueNode \<Rightarrow> 'a archive \<Rightarrow> 'a archive" where
  "Node_WriteToArchive n archiver = archiver"

definition Node_ReadFromArchive :: "'a archive \<Rightarrow> ExtremalValueNode \<Rightarrow> error + ExtremalValueNode" where
  "Node_ReadFromArchive archiver n = Inr n"

definition WriteToArchive :: "PortNames \<Rightarrow> ExtremalValueNode \<Rightarrow> 'a archive \<Rightarrow> 'a archive" where
  "WriteToArchive nm n archiver =
     archive_output (argValPortName nm) (argVal n)
       (archive_output (valPortName nm) (val n)
         (archive_input (inputPortName nm) (input n)
           (Node_WriteToArchive n archiver)))"

definition ReadFromArchive ::
    "PortNames \<Rightarrow> 'a archive \<Rightarrow> ExtremalValueNode \<Rightarrow> error + ExtremalValueNode" where
  "ReadFromArchive nm archiver n =
     (case Node_ReadFromArchive archiver n of
        Inl err \<Rightarrow> Inl err
      | Inr n0 \<Rightarrow>
          (case unarchive_input (inputPortName nm) archiver (input n0) of
             Inl err \<Rightarrow> Inl err
           | Inr i \<Rightarrow>
               (case unarchive_output (valPortName nm) archiver (val n0) of
                  Inl err \<Rightarrow> Inl err
                | Inr v \<Rightarrow>
                    (case unarchive_output (argValPortName nm) archiver (argVal n0) of
                       Inl err \<Rightarrow> Inl err
                     | Inr a \<Rightarrow> Inr (n0\<lparr>input := i, val := v, argVal := a\<rparr>)))))"

subsection \<open>Copy\<close>

text \<open>
  Modelled from the spec: \<^verbatim>\<open>model::ModelTransformer\<close> (not in src), the "port-remapping
  facility" of a graph copy. It holds the images of the output ports copied so far and the
  nodes of the new graph. \<^verbatim>\<open>TransformPortElements\<close> re-resolves a linkage through the
  images, \<^verbatim>\<open>AddNode\<close> constructs a node in the new graph under a new identity, and
  \<^verbatim>\<open>MapNodeOutput\<close> registers an output of the new node as the image of an old one.
\<close>

record ModelTransformer =
  portImage :: "port_id \<Rightarrow> port_id option"
  newModel :: "ExtremalValueNode list"
  nextNodeId :: node_id

primrec TransformPortElements :: "ModelTransformer \<Rightarrow> PortElements \<Rightarrow> error + PortElements" where
  "TransformPortElements t [] = Inr []"
| "TransformPortElements t (e # es) =
     (case portImage t (fst e) of
        None \<Rightarrow> Inl UnmappedPort
      | Some q \<Rightarrow>
          (case TransformPortElements t es of
             Inl err \<Rightarrow> Inl err
           | Inr es' \<Rightarrow> Inr ((q, snd e) # es')))"

definition AddNode ::
    "(node_id \<Rightarrow> PortElements \<Rightarrow> ExtremalValueNode) \<Rightarrow> ModelTransformer \<Rightarrow> PortElements
       \<Rightarrow> ExtremalValueNode \<times> ModelTransformer" where
  "AddNode ctor t args =
     (let newNode = ctor (nextNodeId t) args
      in (newNode, t\<lparr>newModel := newModel t @ [newNode], nextNodeId := Suc (nextNodeId t)\<rparr>))"

definition MapNodeOutput :: "OutputPort \<Rightarrow> OutputPort \<Rightarrow> ModelTransformer \<Rightarrow> ModelTransformer" where
  "MapNodeOutput oldPort newPort t = t\<lparr>portImage := (portImage t)(out_id oldPort \<mapsto> out_id newPort)\<rparr>"

text \<open>
  \<^verbatim>\<open>ArgMinNode<ValueType>\<close> and \<^verbatim>\<open>ArgMaxNode<ValueType>\<close> are the min and the max variant of
  \<^verbatim>\<open>ExtremalValueNode\<close> (their class declarations are not in src).
\<close>

definition ArgMinNode_ctor :: "PortNames \<Rightarrow> node_id \<Rightarrow> PortElements \<Rightarrow> ExtremalValueNode" where
  "ArgMinNode_ctor nm = ExtremalValueNode_ctor nm False"

definition ArgMaxNode_ctor :: "PortNames \<Rightarrow> node_id \<Rightarrow> PortElements \<Rightarrow> ExtremalValueNode" where
  "ArgMaxNode_ctor nm = ExtremalValueNode_ctor nm True"

definition ArgMinNode_Copy ::
    "PortNames \<Rightarrow> ExtremalValueNode \<Rightarrow> ModelTransformer \<Rightarrow> error + ModelTransformer" where
  "ArgMinNode_Copy nm this transformer =
     (case TransformPortElements transformer (in_elements (input this)) of
        Inl err \<Rightarrow> Inl err
      | Inr newPortElements \<Rightarrow>
          (case AddNode (ArgMinNode_ctor nm) transformer newPortElements of
             (newNode, t1) \<Rightarrow>
               Inr (MapNodeOutput (argVal this) (argVal newNode)
                     (MapNodeOutput (val this) (val newNode) t1))))"

definition ArgMaxNode_Copy ::
    "PortNames \<Rightarrow> ExtremalValueNode \<Rightarrow> ModelTransformer \<Rightarrow> error + ModelTransformer" where
  "ArgMaxNode_Copy nm this transformer =
     (case TransformPortElements transformer (in_elements (input this)) of
        Inl err \<Rightarrow> Inl err
      | Inr newPortElements \<Rightarrow>
          (case AddNode (ArgMaxNode_ctor nm) transformer newPortElements of
             (newNode, t1) \<Rightarrow>
               Inr (MapNodeOutput (argVal this) (argVal newNode)
                     (MapNodeOutput (val this) (val newNode) t1))))"

subsection \<open>Type name\<close>

text \<open>
  \<^verbatim>\<open>GetTypeName\<close> hands the element type and one of the tag types \<^verbatim>\<open>std::true_type\<close>,
  \<^verbatim>\<open>std::false_type\<close> to \<^verbatim>\<open>utilities::GetCompositeTypeName\<close>, which is not in src and is a
  parameter: a function of the list of type arguments and of the base name.
\<close>

datatype 't type_argument = ValueType 't | true_type | false_type

definition GetTypeName :: "('t type_argument list \<Rightarrow> string \<Rightarrow> string) \<Rightarrow> 't \<Rightarrow> bool \<Rightarrow> string" where
  "GetTypeName GetCompositeTypeName vt mx =
     (if mx
      then GetCompositeTypeName [ValueType vt, true_type] ''ExtremalValueNode''
      else GetCompositeTypeName [ValueType vt, false_type] ''ExtremalValueNode'')"

text \<open>
  Modelled from the spec: the type-name registry (\<^verbatim>\<open>utilities/TypeName.h\<close>, not in src), of
  which the spec keeps "the minimal contract needed to round-trip a node's declared type
  name": the composite name of a base type determines its type arguments.
\<close>

definition round_trips :: "('t type_argument list \<Rightarrow> string \<Rightarrow> string) \<Rightarrow> bool" where
  "round_trips GetCompositeTypeName =
     (\<forall>base ts ts'. GetCompositeTypeName ts base = GetCompositeTypeName ts' base \<longrightarrow> ts = ts')"

section \<open>Filter-bank nodes\<close>

text \<open>
  Of the filter-bank nodes src holds the class declarations only
  (\<^verbatim>\<open>FilterBankNode.h\<close>): the ports, the filter members and \<^verbatim>\<open>HasState\<close>. The concrete
  classes \<^verbatim>\<open>LinearFilterBankNode\<close> and \<^verbatim>\<open>MelFilterBankNode\<close> hold their filter bank by value
  (\<^verbatim>\<open>_linearFilters\<close>, \<^verbatim>\<open>_melFilters\<close>); the reference \<^verbatim>\<open>_filters\<close> of the base class is bound
  by constructors that are not in src.

  Modelled from the spec: \<^verbatim>\<open>dsp::TriangleFilterBank\<close> and its subclasses (not in src), "an
  ordered sequence of weight vectors".
\<close>

datatype FilterBankKind = LinearFilterBank | MelFilterBank

record 'a FilterBankNode =
  fb_kind :: FilterBankKind
  fb_input :: InputPort
  fb_output :: OutputPort
  fb_filters :: "'a list list"

definition HasState :: "'a FilterBankNode \<Rightarrow> bool" where
  "HasState n = True"

record FilterBankNames =
  fb_inputPortName :: string
  fb_outputPortName :: string
  fb_filtersName :: string

text \<open>
  Modelled from the spec: \<^verbatim>\<open>Compute\<close>, \<^verbatim>\<open>WriteToArchive\<close> and \<^verbatim>\<open>ReadFromArchive\<close> of the
  filter-bank nodes (declared in \<^verbatim>\<open>FilterBankNode.h\<close>, defined outside src).
  \<^verbatim>\<open>Compute\<close>: "output[j] = sum over k of input[k] * weights[j][k]", summed left to right.
  Serialization "persists input linkage, output port size, and the entire coefficient
  table (every filter's full weight vector)".
\<close>

definition FilterBank_output :: "'a::semiring_0 list list \<Rightarrow> 'a list \<Rightarrow> 'a list" where
  "FilterBank_output filters inputValues =
     map (\<lambda>w. foldl (+) 0 (map (\<lambda>(x, c). x * c) (zip inputValues w))) filters"

definition FilterBank_Compute :: "'a::semiring_0 FilterBankNode \<Rightarrow> 'a store \<Rightarrow> error + 'a store" where
  "FilterBank_Compute n s =
     (case GetValue s (fb_input n) of
        Inl err \<Rightarrow> Inl err
      | Inr inputValues \<Rightarrow>
          Inr (SetOutput (fb_output n) (Values (FilterBank_output (fb_filters n) inputValues)) s))"

definition FilterBank_WriteToArchive ::
    "FilterBankNames \<Rightarrow> 'a FilterBankNode \<Rightarrow> 'a archive \<Rightarrow> 'a archive" where
  "FilterBank_WriteToArchive nm n archiver =
     (archive_output (fb_outputPortName nm) (fb_output n)
       (archive_input (fb_inputPortName nm) (fb_input n) archiver))
     (fb_filtersName nm \<mapsto> FilterTable (fb_filters n))"

definition FilterBank_ReadFromArchive ::
    "FilterBankNames \<Rightarrow> 'a archive \<Rightarrow> 'a FilterBankNode \<Rightarrow> error + 'a FilterBankNode" where
  "FilterBank_ReadFromArchive nm archiver n =
     (case unarchive_input (fb_inputPortName nm) archiver (fb_input n) of
        Inl err \<Rightarrow> Inl err
      | Inr i \<Rightarrow>
          (case unarchive_output (fb_outputPortName nm) archiver (fb_output n) of
             Inl err \<Rightarrow> Inl err
           | Inr out \<Rightarrow>
               (case archiver (fb_filtersName nm) of
                  Some (FilterTable fs) \<Rightarrow>
                    Inr (n\<lparr>fb_input := i, fb_output := out, fb_filters := fs\<rparr>)
                | _ \<Rightarrow> Inl (MissingField (fb_filtersName nm)))))"

section \<open>Elements that may be NaN\<close>

text \<open>
  The comparison of \<^verbatim>\<open>float\<close> and \<^verbatim>\<open>double\<close>: numbers compare as numbers, and \<open><\<close> is false
  whenever an operand is NaN. It is a strict order, but NaN is comparable to no number.
\<close>

datatype 'a or_NaN = NaN | Number 'a

instantiation or_NaN :: (linorder) order
begin

definition less_or_NaN :: "'a or_NaN \<Rightarrow> 'a or_NaN \<Rightarrow> bool" where
  "less_or_NaN x y = (case (x, y) of (Number a, Number b) \<Rightarrow> a < b | _ \<Rightarrow> False)"

definition less_eq_or_NaN :: "'a or_NaN \<Rightarrow> 'a or_NaN \<Rightarrow> bool" where
  "less_eq_or_NaN x y = (x < y \<or> x = y)"

instance
proof
  fix x y z :: "'a or_NaN"
  show "(x < y) = (x \<le> y \<and> \<not> y \<le> x)"
    by (auto simp: less_or_NaN_def less_eq_or_NaN_def split: or_NaN.splits)
  show "x \<le> x" by (simp add: less_eq_or_NaN_def)
  show "x \<le> y \<Longrightarrow> y \<le> z \<Longrightarrow> x \<le> z"
    by (auto simp: less_or_NaN_def less_eq_or_NaN_def split: or_NaN.splits)
  show "x \<le> y \<Longrightarrow> y \<le> x \<Longrightarrow> x = y"
    by (auto simp: less_or_NaN_def less_eq_or_NaN_def split: or_NaN.splits)
qed

end

section \<open>Observations\<close>

text \<open>
  What a consumer sees of a node after \<^verbatim>\<open>Compute\<close>: the buffers of its output ports, or the
  error.
\<close>

definition outputs :: "ExtremalValueNode \<Rightarrow> 'a store \<Rightarrow> 'a buffer option \<times> 'a buffer option" where
  "outputs n s = (s (out_id (val n)), s (out_id (argVal n)))"

definition observe :: "ExtremalValueNode \<Rightarrow> error + 'a store \<Rightarrow> error + 'a buffer option \<times> 'a buffer option" where
  "observe n r = (case r of Inl err \<Rightarrow> Inl err | Inr s \<Rightarrow> Inr (outputs n s))"

definition has_loop :: "instr list \<Rightarrow> bool" where
  "has_loop code = list_ex (\<lambda>x. case x of For b e st body \<Rightarrow> True | _ \<Rightarrow> False) code"

text \<open>The position of the iterator \<^verbatim>\<open>result\<close> that \<^verbatim>\<open>Compute\<close> takes.\<close>

definition extremal_position :: "bool \<Rightarrow> 'a::ord list \<Rightarrow> nat" where
  "extremal_position mx V = (if mx then max_element V else min_element V)"

text \<open>Concrete inputs: port names, and the linkage to the first \<open>k\<close> elements of one port.\<close>

definition example_names :: PortNames where
  "example_names = \<lparr> inputPortName = ''input'', valPortName = ''val'', argValPortName = ''argVal'' \<rparr>"

definition whole_port :: "port_id \<Rightarrow> nat \<Rightarrow> PortElements" where
  "whole_port q k = map (Pair q) [0..<k]"

text \<open>
  The scan from a given candidate and position on, for either variant, and the state of the
  compiled function's two local variables when the candidate is \<open>l\<close>.
\<close>

definition extremal_scan :: "bool \<Rightarrow> 'a::ord list \<Rightarrow> nat \<Rightarrow> nat \<Rightarrow> nat" where
  "extremal_scan mx V l f = (if mx then max_element_loop V l f else min_element_loop V l f)"

definition best :: "'a memory \<Rightarrow> 'a list \<Rightarrow> nat \<Rightarrow> 'a store \<Rightarrow> bool" where
  "best m V l s =
     (locals m ''bestVal'' = Some (PortValueType, Some (Element (V ! l)))
      \<and> locals m ''bestArgVal'' = Some (Int32, Some (Integer (to_int32 (int l))))
      \<and> ports m = s)"

definition example_store :: "int store" where
  "example_store = Map.empty((0, 0) \<mapsto> Values [3, 5, 5, 2])"

definition example_node :: "bool \<Rightarrow> ExtremalValueNode" where
  "example_node mx = ExtremalValueNode_ctor example_names mx 1 (whole_port (0, 0) 4)"

text \<open>A max node on the three elements NaN, 1, 2.\<close>

definition NaN_store :: "int or_NaN store" where
  "NaN_store = Map.empty((0, 0) \<mapsto> Values [NaN, Number 1, Number 2])"

definition NaN_node :: ExtremalValueNode where
  "NaN_node = ExtremalValueNode_ctor example_names True 1 (whole_port (0, 0) 3)"

text \<open>
  A node whose best-value port is not scalar (as a node read from a damaged archive is),
  and the two settings of the unroll-loops option.
\<close>

definition oversized_node :: ExtremalValueNode where
  "oversized_node = (example_node True)\<lparr>val := (val (example_node True))\<lparr>out_size := 2\<rparr>\<rparr>"

definition loop_compiler :: IRMapCompiler where
  "loop_compiler = \<lparr> GetCompilerOptions = \<lparr> unrollLoops = False \<rparr> \<rparr>"

definition unrolling_compiler :: IRMapCompiler where
  "unrolling_compiler = \<lparr> GetCompilerOptions = \<lparr> unrollLoops = True \<rparr> \<rparr>"

text \<open>
  A transformer that has copied the upstream port \<open>(0, 0)\<close> to \<open>(5, 0)\<close>, and the buffers of
  the new graph.
\<close>

definition example_transformer :: ModelTransformer where
  "example_transformer = \<lparr> portImage = Map.empty((0, 0) \<mapsto> (5, 0)), newModel = [], nextNodeId = 7 \<rparr>"

definition copied_store :: "int store" where
  "copied_store = Map.empty((5, 0) \<mapsto> Values [3, 5, 5, 2])"

text \<open>
  What a consumer sees of a filter-bank node after \<^verbatim>\<open>Compute\<close>, and the filter bank of the
  spec's example: one filter with the weights \<open>[1, 0, 1, 0]\<close> on the input \<open>[2, 3, 4, 5]\<close>.
\<close>

definition fb_observe :: "'a FilterBankNode \<Rightarrow> error + 'a store \<Rightarrow> error + 'a buffer option" where
  "fb_observe n r = (case r of Inl err \<Rightarrow> Inl err | Inr s \<Rightarrow> Inr (s (out_id (fb_output n))))"

definition example_fb_names :: FilterBankNames where
  "example_fb_names =
     \<lparr> fb_inputPortName = ''input'', fb_outputPortName = ''output'', fb_filtersName = ''filters'' \<rparr>"

definition example_filter_bank_node :: "int FilterBankNode" where
  "example_filter_bank_node =
     \<lparr> fb_kind = MelFilterBank,
       fb_input = \<lparr> in_name = ''input'', in_elements = whole_port (0, 0) 4 \<rparr>,
       fb_output = \<lparr> out_name = ''output'', out_id = (1, 0), out_size = 1 \<rparr>,
       fb_filters = [[1, 0, 1, 0]] \<rparr>"

definition empty_filter_bank_node :: "int FilterBankNode" where
  "empty_filter_bank_node =
     \<lparr> fb_kind = MelFilterBank,
       fb_input = \<lparr> in_name = ''input'', in_elements = [] \<rparr>,
       fb_output = \<lparr> out_name = ''output'', out_id = (2, 0), out_size = 0 \<rparr>,
       fb_filters = [] \<rparr>"

definition spectrum_store :: "int store" where
  "spectrum_store = Map.empty((0, 0) \<mapsto> Values [2, 3, 4, 5])"

text \<open>
  A composite type name that keeps its type arguments: the base name followed by one letter
  for each argument.
\<close>

definition example_composite_name :: "unit type_argument list \<Rightarrow> string \<Rightarrow> string" where
  "example_composite_name ts base =
     base @ map (\<lambda>t. case t of ValueType u \<Rightarrow> CHR ''v'' | true_type \<Rightarrow> CHR ''t''
                              | false_type \<Rightarrow> CHR ''f'') ts"

section \<open>The scan of \<^verbatim>\<open>Compute\<close>\<close>

text \<open>
  The invariant of both scans: the candidate is the first position, among those seen so
  far, of an element that no seen element exceeds (resp. undercuts).
\<close>

lemma max_element_loop_bound:
  "largest < length V \<Longrightarrow> max_element_loop V largest first < length V"
proof (induction V largest first rule: max_element_loop.induct)
  case (1 V largest first)
  show ?case
  proof (cases "first < length V")
    case False
    then have "max_element_loop V largest first = largest"
      by (subst max_element_loop.simps) simp
    with "1.prems" show ?thesis by simp
  next
    case True
    let ?l = "if V ! largest < V ! first then first else largest"
    have "?l < length V" using True "1.prems" by simp
    moreover have "max_element_loop V largest first = max_element_loop V ?l (Suc first)"
      using True by (subst max_element_loop.simps) simp
    ultimately show ?thesis using "1.IH" [OF True] by simp
  qed
qed

lemma min_element_loop_bound:
  "smallest < length V \<Longrightarrow> min_element_loop V smallest first < length V"
proof (induction V smallest first rule: min_element_loop.induct)
  case (1 V smallest first)
  show ?case
  proof (cases "first < length V")
    case False
    then have "min_element_loop V smallest first = smallest"
      by (subst min_element_loop.simps) simp
    with "1.prems" show ?thesis by simp
  next
    case True
    let ?l = "if V ! first < V ! smallest then first else smallest"
    have "?l < length V" using True "1.prems" by simp
    moreover have "min_element_loop V smallest first = min_element_loop V ?l (Suc first)"
      using True by (subst min_element_loop.simps) simp
    ultimately show ?thesis using "1.IH" [OF True] by simp
  qed
qed

lemma extremal_position_bound: "V \<noteq> [] \<Longrightarrow> extremal_position mx V < length V"
  by (simp add: extremal_position_def max_element_def min_element_def
        max_element_loop_bound min_element_loop_bound)

text \<open>
  Where any two elements of the vector are comparable, the candidate is a greatest (resp.
  least) element among those seen, and the first such.
\<close>

lemma max_element_loop_first_max:
  fixes V :: "'a::order list"
  assumes "largest < first" "first \<le> length V"
    and "\<forall>i<length V. \<forall>j<length V. V ! i < V ! j \<or> V ! i = V ! j \<or> V ! j < V ! i"
    and "\<forall>j<first. V ! j \<le> V ! largest" and "\<forall>j<largest. V ! j < V ! largest"
  shows "(\<forall>j<length V. V ! j \<le> V ! max_element_loop V largest first)
       \<and> (\<forall>j<max_element_loop V largest first. V ! j < V ! max_element_loop V largest first)"
  using assms
proof (induction V largest first rule: max_element_loop.induct)
  case (1 V largest first)
  show ?case
  proof (cases "first < length V")
    case False
    then have "max_element_loop V largest first = largest"
      by (subst max_element_loop.simps) simp
    with False "1.prems" show ?thesis by simp
  next
    case True
    let ?l = "if V ! largest < V ! first then first else largest"
    have lt: "largest < length V" using "1.prems"(1) True by simp
    have a: "?l < Suc first" using "1.prems" by simp
    have b: "Suc first \<le> length V" using True by simp
    have c: "\<forall>j<Suc first. V ! j \<le> V ! ?l"
    proof (cases "V ! largest < V ! first")
      case True
      then show ?thesis
        using "1.prems"(4) by (auto simp: less_Suc_eq intro: order_trans less_imp_le)
    next
      case False
      with "1.prems"(3) True lt have "V ! first \<le> V ! largest"
        by (auto simp: le_less)
      with False show ?thesis
        using "1.prems"(4) by (auto simp: less_Suc_eq)
    qed
    have d: "\<forall>j<?l. V ! j < V ! ?l"
      using "1.prems"(4,5) by (auto intro: le_less_trans)
    have "max_element_loop V largest first = max_element_loop V ?l (Suc first)"
      using True by (subst max_element_loop.simps) simp
    with "1.IH" [OF True a b "1.prems"(3) c d] show ?thesis by simp
  qed
qed

lemma min_element_loop_first_min:
  fixes V :: "'a::order list"
  assumes "smallest < first" "first \<le> length V"
    and "\<forall>i<length V. \<forall>j<length V. V ! i < V ! j \<or> V ! i = V ! j \<or> V ! j < V ! i"
    and "\<forall>j<first. V ! smallest \<le> V ! j" and "\<forall>j<smallest. V ! smallest < V ! j"
  shows "(\<forall>j<length V. V ! min_element_loop V smallest first \<le> V ! j)
       \<and> (\<forall>j<min_element_loop V smallest first. V ! min_element_loop V smallest first < V ! j)"
  using assms
proof (induction V smallest first rule: min_element_loop.induct)
  case (1 V smallest first)
  show ?case
  proof (cases "first < length V")
    case False
    then have "min_element_loop V smallest first = smallest"
      by (subst min_element_loop.simps) simp
    with False "1.prems" show ?thesis by simp
  next
    case True
    let ?l = "if V ! first < V ! smallest then first else smallest"
    have lt: "smallest < length V" using "1.prems"(1) True by simp
    have a: "?l < Suc first" using "1.prems" by simp
    have b: "Suc first \<le> length V" using True by simp
    have c: "\<forall>j<Suc first. V ! ?l \<le> V ! j"
    proof (cases "V ! first < V ! smallest")
      case True
      then show ?thesis
        using "1.prems"(4) by (auto simp: less_Suc_eq intro: order_trans less_imp_le)
    next
      case False
      with "1.prems"(3) True lt have "V ! smallest \<le> V ! first"
        by (auto simp: le_less)
      with False show ?thesis
        using "1.prems"(4) by (auto simp: less_Suc_eq)
    qed
    have d: "\<forall>j<?l. V ! ?l < V ! j"
      using "1.prems"(4,5) by (auto intro: less_le_trans)
    have "min_element_loop V smallest first = min_element_loop V ?l (Suc first)"
      using True by (subst min_element_loop.simps) simp
    with "1.IH" [OF True a b "1.prems"(3) c d] show ?thesis by simp
  qed
qed

lemma extremal_position_first:
  fixes V :: "'a::order list"
  assumes "V \<noteq> []" and "\<forall>x\<in>set V. \<forall>y\<in>set V. x < y \<or> x = y \<or> y < x"
  shows "\<forall>x\<in>set V. if mx then x \<le> V ! extremal_position mx V else V ! extremal_position mx V \<le> x"
    and "\<forall>j<extremal_position mx V. V ! j \<noteq> V ! extremal_position mx V"
proof -
  have "(0::nat) < 1" "1 \<le> length V" using assms(1) by (simp_all add: Suc_le_eq)
  moreover have cmp: "\<forall>i<length V. \<forall>j<length V. V ! i < V ! j \<or> V ! i = V ! j \<or> V ! j < V ! i"
    using assms(2) by simp
  moreover have "\<forall>j<1. V ! j \<le> V ! 0" "\<forall>j<0. V ! j < V ! 0"
    "\<forall>j<1. V ! 0 \<le> V ! j" "\<forall>j<0. V ! 0 < V ! j" by simp_all
  ultimately have
    mx: "(\<forall>j<length V. V ! j \<le> V ! max_element V) \<and> (\<forall>j<max_element V. V ! j < V ! max_element V)"
    and mn: "(\<forall>j<length V. V ! min_element V \<le> V ! j) \<and> (\<forall>j<min_element V. V ! min_element V < V ! j)"
    using max_element_loop_first_max [of 0 1 V] min_element_loop_first_min [of 0 1 V] assms(1)
    by (simp_all add: max_element_def min_element_def)
  show "\<forall>x\<in>set V. if mx then x \<le> V ! extremal_position mx V else V ! extremal_position mx V \<le> x"
    using mx mn by (auto simp: extremal_position_def in_set_conv_nth)
  show "\<forall>j<extremal_position mx V. V ! j \<noteq> V ! extremal_position mx V"
    using mx mn by (auto simp: extremal_position_def)
qed

lemma Compute_nonempty:
  assumes "GetValue s (input n) = Inr V" "V \<noteq> []"
  shows "Compute n s =
           Inr (SetOutput (argVal n) (Ints [to_int32 (int (extremal_position (isMax n) V))])
                 (SetOutput (val n) (Values [V ! extremal_position (isMax n) V]) s))"
  using assms extremal_position_bound [OF assms(2), of "isMax n"]
  by (simp add: Compute_def extremal_position_def Let_def)

lemma Compute_empty:
  assumes "GetValue s (input n) = Inr []"
  shows "Compute n s = Inl ReadOutOfRange"
  using assms by (simp add: Compute_def max_element_def min_element_def)

lemma to_int32_id: "- (2 ^ 31) \<le> k \<Longrightarrow> k < 2 ^ 31 \<Longrightarrow> to_int32 k = k"
  by (simp add: to_int32_def)

lemma to_int32_idem: "to_int32 (to_int32 k) = to_int32 k"
  by (simp add: to_int32_def)

lemma outputs_SetOutput:
  "out_id (val n) \<noteq> out_id (argVal n) \<Longrightarrow>
   outputs n (SetOutput (argVal n) b (SetOutput (val n) a s)) = (Some a, Some b)"
  by (simp add: outputs_def SetOutput_def)

lemma GetElements_range:
  "s q = Some (Values vs) \<Longrightarrow> i \<le> length vs \<Longrightarrow>
   GetElements s (map (Pair q) [i..<length vs]) = Inr (drop i vs)"
proof (induction "length vs - i" arbitrary: i)
  case 0
  then show ?case by simp
next
  case (Suc k)
  then have lt: "i < length vs" by simp
  then have "GetElements s (map (Pair q) [Suc i..<length vs]) = Inr (drop (Suc i) vs)"
    using Suc by simp
  with lt Suc.prems(1) show ?case
    by (simp add: upt_conv_Cons GetElement_def Cons_nth_drop_Suc)
qed

lemma GetValue_whole_port:
  "s q = Some (Values vs) \<Longrightarrow> in_elements p = whole_port q (length vs) \<Longrightarrow> GetValue s p = Inr vs"
  using GetElements_range [of s q vs 0] by (simp add: GetValue_def whole_port_def)

lemma extremal_position_zeros_one:
  "extremal_position True (replicate N (0::int) @ [1]) = N"
proof -
  let ?V = "replicate N (0::int) @ [1]"
  have ne: "?V \<noteq> []" by simp
  have cmp: "\<forall>x\<in>set ?V. \<forall>y\<in>set ?V. x < y \<or> x = y \<or> y < x" by auto
  from extremal_position_first(1) [OF ne cmp, of True]
  have one: "1 \<le> ?V ! extremal_position True ?V" by simp
  have "\<not> extremal_position True ?V < N"
  proof
    assume "extremal_position True ?V < N"
    then have "?V ! extremal_position True ?V = 0" by (simp add: nth_append)
    with one show False by simp
  qed
  with extremal_position_bound [OF ne, of True] show ?thesis by simp
qed

text \<open>
  What a consumer observes of \<^verbatim>\<open>Compute\<close> depends on the node only through its variant and
  the values its input carries.
\<close>

lemma observe_Compute:
  assumes "out_id (val n) \<noteq> out_id (argVal n)"
  shows "observe n (Compute n s) =
           (case GetValue s (input n) of
              Inl err \<Rightarrow> Inl err
            | Inr V \<Rightarrow>
                if V = [] then Inl ReadOutOfRange
                else Inr (Some (Values [V ! extremal_position (isMax n) V]),
                          Some (Ints [to_int32 (int (extremal_position (isMax n) V))])))"
proof (cases "GetValue s (input n)")
  case (Inl err)
  then show ?thesis by (simp add: Compute_def observe_def)
next
  case (Inr V)
  show ?thesis
  proof (cases "V = []")
    case True
    with Inr show ?thesis by (simp add: Compute_empty observe_def)
  next
    case False
    with Inr assms show ?thesis
      by (simp add: Compute_nonempty [OF Inr False] observe_def outputs_SetOutput)
  qed
qed

text \<open>The max node on the input \<open>[3, 5, 5, 2]\<close>.\<close>

lemma example_GetValue: "GetValue example_store (input (example_node mx)) = Inr [3, 5, 5, 2]"
  by (rule GetValue_whole_port [of _ "(0, 0)"])
     (simp_all add: example_store_def example_node_def ExtremalValueNode_ctor_def eval_nat_numeral)

lemma example_position_max: "extremal_position True [3, 5, 5, 2 :: int] = 1"
  by (simp add: extremal_position_def max_element_def max_element_loop.simps)

lemma example_position_min: "extremal_position False [3, 5, 5, 2 :: int] = 3"
  by (simp add: extremal_position_def min_element_def min_element_loop.simps)

lemma example_Compute_max:
  "observe (example_node True) (Compute (example_node True) example_store)
     = Inr (Some (Values [5]), Some (Ints [1]))"
proof -
  have "out_id (val (example_node True)) \<noteq> out_id (argVal (example_node True))"
       "isMax (example_node True)"
    by (simp_all add: example_node_def ExtremalValueNode_ctor_def)
  then show ?thesis
    by (simp add: Compute_nonempty [OF example_GetValue] example_position_max observe_def
          outputs_SetOutput to_int32_def)
qed

section \<open>C1: the outputs of \<^verbatim>\<open>Compute\<close>\<close>

text \<open>
  Claim C1, as amended. For every non-empty input vector of at most \<open>2 ^ 31\<close> elements, any
  two of which are comparable (one is less than the other, or they are equal: so for
  every integer vector, and for every floating-point vector in which no NaN stands beside
  another value), and for both variants, \<^verbatim>\<open>Compute\<close> sets the best-value output to the
  maximum (resp. minimum) element of the input, an element of the vector that no element
  exceeds (resp. undercuts), and the best-index output to the 0-based position \<open>p\<close> of the
  first element with that value: no earlier element has it. The two outputs are distinct
  ports.
\<close>

theorem Compute_first_extremum:
  fixes V :: "'a::order list"
  assumes "GetValue s (input n) = Inr V" and "V \<noteq> []" and "length V \<le> 2 ^ 31"
    and "\<forall>x\<in>set V. \<forall>y\<in>set V. x < y \<or> x = y \<or> y < x"
    and "out_id (val n) \<noteq> out_id (argVal n)"
  shows "\<exists>p. observe n (Compute n s) = Inr (Some (Values [V ! p]), Some (Ints [int p]))
           \<and> p < length V
           \<and> (\<forall>x\<in>set V. if isMax n then x \<le> V ! p else V ! p \<le> x)
           \<and> (\<forall>j<p. V ! j \<noteq> V ! p)"
proof -
  let ?p = "extremal_position (isMax n) V"
  note bound = extremal_position_bound [OF assms(2), of "isMax n"]
  note first = extremal_position_first [OF assms(2,4), of "isMax n"]
  from bound assms(3) have "int ?p < 2 ^ 31" by simp
  then have "to_int32 (int ?p) = int ?p" by (simp add: to_int32_id)
  then have "observe n (Compute n s) = Inr (Some (Values [V ! ?p]), Some (Ints [int ?p]))"
    using assms(5)
    by (simp add: Compute_nonempty [OF assms(1,2)] observe_def outputs_SetOutput)
  with bound first show ?thesis by blast
qed

text \<open>
  The theorem at the input \<open>[3, 5, 5, 2]\<close> of a max node: the hypotheses hold there, and
  the theorem alone fixes the outputs to the value 5 and the index 1 of its first
  occurrence.
\<close>

theorem Compute_first_extremum_witness:
  "GetValue (Map.empty((0, 0) \<mapsto> Values [3, 5, 5, 2 :: int]))
       (input (ExtremalValueNode_ctor example_names True 1 (whole_port (0, 0) 4)))
     = Inr [3, 5, 5, 2]
   \<and> observe (ExtremalValueNode_ctor example_names True 1 (whole_port (0, 0) 4))
       (Compute (ExtremalValueNode_ctor example_names True 1 (whole_port (0, 0) 4))
          (Map.empty((0, 0) \<mapsto> Values [3, 5, 5, 2 :: int])))
     = Inr (Some (Values [5]), Some (Ints [1]))"
proof -
  let ?V = "[3, 5, 5, 2 :: int]"
  let ?s = "Map.empty((0, 0) \<mapsto> Values ?V) :: int store"
  let ?n = "ExtremalValueNode_ctor example_names True 1 (whole_port (0, 0) 4)"
  have g: "GetValue ?s (input ?n) = Inr ?V"
    by (rule GetValue_whole_port [of _ "(0, 0)"])
       (simp_all add: ExtremalValueNode_ctor_def eval_nat_numeral)
  have ne: "?V \<noteq> []" by simp
  have len: "length ?V \<le> 2 ^ 31" by simp
  have cmp: "\<forall>x\<in>set ?V. \<forall>y\<in>set ?V. x < y \<or> x = y \<or> y < x" by auto
  have ids: "out_id (val ?n) \<noteq> out_id (argVal ?n)" by (simp add: ExtremalValueNode_ctor_def)
  have mx: "isMax ?n" by (simp add: ExtremalValueNode_ctor_def)
  from Compute_first_extremum [OF g ne len cmp ids] obtain p where
    p: "observe ?n (Compute ?n ?s) = Inr (Some (Values [?V ! p]), Some (Ints [int p]))"
       "p < 4" "\<forall>x\<in>set ?V. x \<le> ?V ! p" "\<forall>j<p. ?V ! j \<noteq> ?V ! p"
    using mx by auto
  from p(3) have five: "5 \<le> ?V ! p" by simp
  have "p \<noteq> 0"
  proof
    assume "p = 0"
    with five show False by simp
  qed
  moreover have "p \<noteq> 3"
  proof
    assume "p = 3"
    with five show False by simp
  qed
  moreover have "p \<noteq> 2"
  proof
    assume "p = 2"
    moreover have "1 < p \<Longrightarrow> ?V ! 1 \<noteq> ?V ! p" using p(4) by blast
    ultimately show False by simp
  qed
  ultimately have "p = 1" using p(2) by arith
  with p(1) g show ?thesis by simp
qed

text \<open>
  On longer vectors \<^verbatim>\<open>(int)index\<close> keeps 32 bits: on \<open>2 ^ 31\<close> zeros followed by a one, the
  maximum is first reached at position \<open>2147483648\<close>, and the best-index output of a max
  node is \<open>- 2147483648\<close>.
\<close>

lemma Compute_index_wraps:
  "observe (ExtremalValueNode_ctor example_names True 1 (whole_port (0, 0) 2147483649))
     (Compute (ExtremalValueNode_ctor example_names True 1 (whole_port (0, 0) 2147483649))
        (Map.empty((0, 0) \<mapsto> Values (replicate 2147483648 (0 :: int) @ [1]))))
   = Inr (Some (Values [1]), Some (Ints [- 2147483648]))"
proof -
  let ?V = "replicate 2147483648 (0 :: int) @ [1]"
  let ?s = "Map.empty((0, 0) \<mapsto> Values ?V) :: int store"
  let ?n = "ExtremalValueNode_ctor example_names True 1 (whole_port (0, 0) 2147483649)"
  have len: "length ?V = 2147483649" by simp
  have g: "GetValue ?s (input ?n) = Inr ?V"
    by (rule GetValue_whole_port [of _ "(0, 0)"]) (simp_all add: ExtremalValueNode_ctor_def)
  have ne: "?V \<noteq> []" by simp
  have ids: "out_id (val ?n) \<noteq> out_id (argVal ?n)" by (simp add: ExtremalValueNode_ctor_def)
  have mx: "isMax ?n" by (simp add: ExtremalValueNode_ctor_def)
  have pos: "extremal_position (isMax ?n) ?V = 2147483648"
    using extremal_position_zeros_one [of 2147483648] mx by simp
  have v: "?V ! 2147483648 = 1" by (simp add: nth_append)
  have w: "to_int32 (int 2147483648) = - 2147483648" by (simp add: to_int32_def)
  show ?thesis
    unfolding Compute_nonempty [OF g ne] pos
    using ids v w by (simp add: observe_def outputs_SetOutput)
qed

text \<open>
  On a vector with a NaN beside numbers the scan keeps the NaN it starts from, since no
  comparison with it holds: on NaN, 1, 2 a max node stores NaN and the index 0.
\<close>

lemma Compute_NaN_first:
  "observe NaN_node (Compute NaN_node NaN_store) = Inr (Some (Values [NaN]), Some (Ints [0]))"
proof -
  have g: "GetValue NaN_store (input NaN_node) = Inr [NaN, Number 1, Number 2]"
    by (rule GetValue_whole_port [of _ "(0, 0)"])
       (simp_all add: NaN_store_def NaN_node_def ExtremalValueNode_ctor_def eval_nat_numeral)
  have ids: "out_id (val NaN_node) \<noteq> out_id (argVal NaN_node)" "isMax NaN_node"
    by (simp_all add: NaN_node_def ExtremalValueNode_ctor_def)
  have pos: "extremal_position True [NaN, Number 1, Number (2 :: int)] = 0"
    by (simp add: extremal_position_def max_element_def max_element_loop.simps less_or_NaN_def)
  show ?thesis
    using ids
    by (simp add: Compute_nonempty [OF g] pos observe_def outputs_SetOutput to_int32_def)
qed

text \<open>
  Claim C1 as stated fails at both inputs: the best-index output \<open>- 2147483648\<close> is no
  position of the first vector, and the best-value output NaN is not the maximum of the
  second, which is 2.
\<close>

theorem Compute_not_first_extremum:
  "observe (ExtremalValueNode_ctor example_names True 1 (whole_port (0, 0) 2147483649))
     (Compute (ExtremalValueNode_ctor example_names True 1 (whole_port (0, 0) 2147483649))
        (Map.empty((0, 0) \<mapsto> Values (replicate 2147483648 (0 :: int) @ [1]))))
     = Inr (Some (Values [1]), Some (Ints [- 2147483648]))
   \<and> observe NaN_node (Compute NaN_node NaN_store) = Inr (Some (Values [NaN]), Some (Ints [0]))
   \<and> \<not> Number 2 \<le> (NaN :: int or_NaN)"
  using Compute_index_wraps Compute_NaN_first by (simp add: less_eq_or_NaN_def less_or_NaN_def)

section \<open>The compiled scans\<close>

text \<open>
  Both emitted programs keep, in their two local variables, the candidate of the
  interpreter's scan: each conditional is one step of it.
\<close>

lemma GetElements_length: "GetElements s es = Inr vs \<Longrightarrow> length vs = length es"
  by (induction es arbitrary: vs) (auto split: sum.splits)

lemma GetValue_Size: "GetValue s p = Inr V \<Longrightarrow> Size p = length V"
  by (simp add: GetValue_def Size_def GetElements_length)

lemma counters_step_1: "counters b e (Suc 0) = [b..<e]"
proof -
  have "map (\<lambda>j. b + j) [0..<e - b] = map (\<lambda>j. j + b) [0..<e - b]"
    by (simp add: add.commute)
  also have "\<dots> = [b..<e - b + b]" by (rule map_add_upt)
  also have "\<dots> = [b..<e]" by (cases "b \<le> e") simp_all
  finally show ?thesis by (simp add: counters_def)
qed

lemma exec_block_append:
  "exec_block V i (xs @ ys) m =
     (case exec_block V i xs m of Inl err \<Rightarrow> Inl err | Inr m' \<Rightarrow> exec_block V i ys m')"
  by (induction xs arbitrary: m) (simp_all split: sum.splits)

lemma exec_block_append_Inr:
  "exec_block V i xs m = Inr m' \<Longrightarrow> exec_block V i (xs @ ys) m = exec_block V i ys m'"
  by (simp add: exec_block_append)

lemma extremal_scan_step:
  "f < length V \<Longrightarrow>
   extremal_scan (isMax n) V l f =
   extremal_scan (isMax n) V (if holds (GetComparison n) (V ! f) (V ! l) then f else l) (Suc f)"
  by (simp add: extremal_scan_def GetComparison_def IsMaxNode_def holds_def
        max_element_loop.simps [of V l f] min_element_loop.simps [of V l f])

lemma extremal_scan_end: "extremal_scan mx V l (length V) = l"
  by (simp add: extremal_scan_def max_element_loop.simps [of V l "length V"]
        min_element_loop.simps [of V l "length V"])

lemma extremal_position_scan: "V \<noteq> [] \<Longrightarrow> extremal_position mx V = extremal_scan mx V 0 1"
  by (simp add: extremal_position_def extremal_scan_def max_element_def min_element_def)

lemma loop_body_step:
  assumes "best m V l s" and "k < length V"
  shows "\<exists>m'. exec_block V (Some (int k))
                 [If (GetComparison n) (ValueAt InputVariable LoopIndex) (Load (LocalVariable ''bestVal''))
                    [Store (LocalVariable ''bestVal'') (ValueAt InputVariable LoopIndex),
                     Store (LocalVariable ''bestArgVal'') LoopIndex]] m = Inr m'
              \<and> best m' V (if holds (GetComparison n) (V ! k) (V ! l) then k else l) s"
  using assms by (simp add: best_def read_at_def write_to_def)

lemma expanded_step:
  assumes "best m V l s" and "k < length V"
  shows "\<exists>m'. exec_instr V i
                 (If (GetComparison n) (PortElementVariable k) (Load (LocalVariable ''bestVal''))
                    [Store (LocalVariable ''bestVal'') (PortElementVariable k),
                     Store (LocalVariable ''bestArgVal'') (Literal (to_int32 (int k)))]) m = Inr m'
              \<and> best m' V (if holds (GetComparison n) (V ! k) (V ! l) then k else l) s"
  using assms by (simp add: best_def read_at_def write_to_def to_int32_idem)

lemma loop_fold:
  assumes "best m V l s" and "f \<le> length V"
  shows "\<exists>m'. fold (\<lambda>k r. case r of Inl err \<Rightarrow> Inl err
                           | Inr m' \<Rightarrow> exec_block V (Some (int k))
                 [If (GetComparison n) (ValueAt InputVariable LoopIndex) (Load (LocalVariable ''bestVal''))
                    [Store (LocalVariable ''bestVal'') (ValueAt InputVariable LoopIndex),
                     Store (LocalVariable ''bestArgVal'') LoopIndex]] m')
              [f..<length V] (Inr m) = Inr m'
           \<and> best m' V (extremal_scan (isMax n) V l f) s"
  using assms
proof (induction "length V - f" arbitrary: f l m)
  case 0
  then have "f = length V" by simp
  with "0.prems" show ?case by (simp add: extremal_scan_end)
next
  case (Suc d)
  then have lt: "f < length V" by simp
  from loop_body_step [OF Suc.prems(1) lt, of n] obtain m1 where
    m1: "exec_block V (Some (int f))
                 [If (GetComparison n) (ValueAt InputVariable LoopIndex) (Load (LocalVariable ''bestVal''))
                    [Store (LocalVariable ''bestVal'') (ValueAt InputVariable LoopIndex),
                     Store (LocalVariable ''bestArgVal'') LoopIndex]] m = Inr m1"
        "best m1 V (if holds (GetComparison n) (V ! f) (V ! l) then f else l) s"
    by blast
  have d: "d = length V - Suc f" using Suc.hyps(2) by simp
  have le: "Suc f \<le> length V" using lt by simp
  from Suc.hyps(1) [OF d m1(2) le] m1(1) lt show ?case
    by (simp add: upt_conv_Cons extremal_scan_step [OF lt, of n l] del: exec_block.simps)
qed

lemma expanded_block:
  assumes "best m V l s" and "f \<le> length V"
  shows "\<exists>m'. exec_block V i
             (map (\<lambda>k. If (GetComparison n) (PortElementVariable k) (Load (LocalVariable ''bestVal''))
                    [Store (LocalVariable ''bestVal'') (PortElementVariable k),
                     Store (LocalVariable ''bestArgVal'') (Literal (to_int32 (int k)))])
                [f..<length V]) m = Inr m'
           \<and> best m' V (extremal_scan (isMax n) V l f) s"
  using assms
proof (induction "length V - f" arbitrary: f l m)
  case 0
  then have "f = length V" by simp
  with "0.prems" show ?case by (simp add: extremal_scan_end)
next
  case (Suc d)
  then have lt: "f < length V" by simp
  from expanded_step [OF Suc.prems(1) lt, of i n] obtain m1 where
    m1: "exec_instr V i
                 (If (GetComparison n) (PortElementVariable f) (Load (LocalVariable ''bestVal''))
                    [Store (LocalVariable ''bestVal'') (PortElementVariable f),
                     Store (LocalVariable ''bestArgVal'') (Literal (to_int32 (int f)))]) m = Inr m1"
        "best m1 V (if holds (GetComparison n) (V ! f) (V ! l) then f else l) s"
    by blast
  have d: "d = length V - Suc f" using Suc.hyps(2) by simp
  have le: "Suc f \<le> length V" using lt by simp
  from Suc.hyps(1) [OF d m1(2) le] m1(1) lt show ?case
    by (simp add: upt_conv_Cons extremal_scan_step [OF lt, of n l] del: exec_instr.simps)
qed

lemma store_outputs:
  assumes "best m V l s"
  shows "\<exists>m'. exec_block V i
                 [Store (PortVariable (out_id (val n))) (Load (LocalVariable ''bestVal'')),
                  Store (PortVariable (out_id (argVal n))) (Load (LocalVariable ''bestArgVal''))] m
               = Inr m'
             \<and> ports m' = SetOutput (argVal n) (Ints [to_int32 (int l)])
                             (SetOutput (val n) (Values [V ! l]) s)"
  using assms by (simp add: best_def read_at_def write_to_def to_int32_idem SetOutput_def)

lemma init_loop:
  assumes "V \<noteq> []"
  shows "\<exists>m. exec_block V None
                [Variable PortValueType ''bestVal'', Variable Int32 ''bestArgVal'',
                 Store (LocalVariable ''bestVal'') (ValueAt InputVariable (Literal 0)),
                 StoreZero (LocalVariable ''bestArgVal'')]
                \<lparr> locals = (\<lambda>x. None), ports = s \<rparr> = Inr m
            \<and> best m V 0 s"
  using assms by (simp add: best_def read_at_def write_to_def to_int32_def)

lemma init_expanded:
  assumes "V \<noteq> []"
  shows "\<exists>m. exec_block V None
                [Variable PortValueType ''bestVal'', Variable Int32 ''bestArgVal'',
                 Store (LocalVariable ''bestVal'') (PortElementVariable 0),
                 StoreZero (LocalVariable ''bestArgVal'')]
                \<lparr> locals = (\<lambda>x. None), ports = s \<rparr> = Inr m
            \<and> best m V 0 s"
  using assms by (simp add: best_def read_at_def write_to_def to_int32_def)

lemma Compute_scan:
  assumes "GetValue s (input n) = Inr V" and "V \<noteq> []"
  shows "Compute n s =
           Inr (SetOutput (argVal n) (Ints [to_int32 (int (extremal_scan (isMax n) V 0 1))])
                 (SetOutput (val n) (Values [V ! extremal_scan (isMax n) V 0 1]) s))"
  using Compute_nonempty [OF assms] extremal_position_scan [OF assms(2), of "isMax n"] by simp

lemma run_CompileLoop:
  assumes "GetValue s (input n) = Inr V"
  shows "run (CompileLoop n) V s = Compute n s"
proof (cases "V = []")
  case True
  with assms have "Compute n s = Inl ReadOutOfRange" by (simp add: Compute_empty)
  moreover have "run (CompileLoop n) V s = Inl ReadOutOfRange"
    using True by (simp add: run_def CompileLoop_def Let_def read_at_def)
  ultimately show ?thesis by simp
next
  case False
  let ?body = "[If (GetComparison n) (ValueAt InputVariable LoopIndex) (Load (LocalVariable ''bestVal''))
                    [Store (LocalVariable ''bestVal'') (ValueAt InputVariable LoopIndex),
                     Store (LocalVariable ''bestArgVal'') LoopIndex]]"
  let ?init = "[Variable PortValueType ''bestVal'', Variable Int32 ''bestArgVal'',
                 Store (LocalVariable ''bestVal'') (ValueAt InputVariable (Literal 0)),
                 StoreZero (LocalVariable ''bestArgVal'')]"
  let ?final = "[Store (PortVariable (out_id (val n))) (Load (LocalVariable ''bestVal'')),
                  Store (PortVariable (out_id (argVal n))) (Load (LocalVariable ''bestArgVal''))]"
  have code: "CompileLoop n = ?init @ For 1 (length V) 1 ?body # ?final"
    by (simp add: CompileLoop_def Let_def GetValue_Size [OF assms])
  from init_loop [OF False, of s] obtain m0 where
    m0: "exec_block V None ?init \<lparr> locals = (\<lambda>x. None), ports = s \<rparr> = Inr m0" "best m0 V 0 s"
    by blast
  have "1 \<le> length V" using False by (simp add: Suc_le_eq)
  from loop_fold [OF m0(2) this, of n] obtain m1 where
    m1: "exec_instr V None (For 1 (length V) 1 ?body) m0 = Inr m1"
        "best m1 V (extremal_scan (isMax n) V 0 1) s"
    by (auto simp: counters_step_1 simp del: exec_block.simps)
  from store_outputs [OF m1(2), of None n] obtain m2 where
    m2: "exec_block V None ?final m1 = Inr m2"
        "ports m2 = SetOutput (argVal n) (Ints [to_int32 (int (extremal_scan (isMax n) V 0 1))])
                      (SetOutput (val n) (Values [V ! extremal_scan (isMax n) V 0 1]) s)"
    by blast
  have "exec_block V None (CompileLoop n) \<lparr> locals = (\<lambda>x. None), ports = s \<rparr> = Inr m2"
    unfolding code exec_block_append m0(1) using m1(1) m2(1)
    by (simp del: exec_instr.simps)
  with m2(2) show ?thesis
    by (simp add: run_def Compute_scan [OF assms False])
qed

lemma run_CompileExpanded:
  assumes "GetValue s (input n) = Inr V"
  shows "run (CompileExpanded n) V s = Compute n s"
proof (cases "V = []")
  case True
  with assms have "Compute n s = Inl ReadOutOfRange" by (simp add: Compute_empty)
  moreover have "run (CompileExpanded n) V s = Inl ReadOutOfRange"
    using True by (simp add: run_def CompileExpanded_def Let_def)
  ultimately show ?thesis by simp
next
  case False
  let ?gen = "\<lambda>k. If (GetComparison n) (PortElementVariable k) (Load (LocalVariable ''bestVal''))
                    [Store (LocalVariable ''bestVal'') (PortElementVariable k),
                     Store (LocalVariable ''bestArgVal'') (Literal (to_int32 (int k)))]"
  let ?init = "[Variable PortValueType ''bestVal'', Variable Int32 ''bestArgVal'',
                 Store (LocalVariable ''bestVal'') (PortElementVariable 0),
                 StoreZero (LocalVariable ''bestArgVal'')]"
  let ?final = "[Store (PortVariable (out_id (val n))) (Load (LocalVariable ''bestVal'')),
                  Store (PortVariable (out_id (argVal n))) (Load (LocalVariable ''bestArgVal''))]"
  have code: "CompileExpanded n = ?init @ map ?gen [1..<length V] @ ?final"
    by (simp add: CompileExpanded_def Let_def GetValue_Size [OF assms])
  from init_expanded [OF False, of s] obtain m0 where
    m0: "exec_block V None ?init \<lparr> locals = (\<lambda>x. None), ports = s \<rparr> = Inr m0" "best m0 V 0 s"
    by blast
  have "1 \<le> length V" using False by (simp add: Suc_le_eq)
  from expanded_block [OF m0(2) this, of None n] obtain m1 where
    m1: "exec_block V None (map ?gen [1..<length V]) m0 = Inr m1"
        "best m1 V (extremal_scan (isMax n) V 0 1) s"
    by blast
  from store_outputs [OF m1(2), of None n] obtain m2 where
    m2: "exec_block V None ?final m1 = Inr m2"
        "ports m2 = SetOutput (argVal n) (Ints [to_int32 (int (extremal_scan (isMax n) V 0 1))])
                      (SetOutput (val n) (Values [V ! extremal_scan (isMax n) V 0 1]) s)"
    by blast
  have "exec_block V None (?init @ map ?gen [1..<length V] @ ?final)
          \<lparr> locals = (\<lambda>x. None), ports = s \<rparr>
        = exec_block V None (map ?gen [1..<length V] @ ?final) m0"
    by (rule exec_block_append_Inr [OF m0(1)])
  also have "\<dots> = exec_block V None ?final m1"
    by (rule exec_block_append_Inr [OF m1(1)])
  also have "\<dots> = Inr m2" by (rule m2(1))
  finally have "exec_block V None (CompileExpanded n) \<lparr> locals = (\<lambda>x. None), ports = s \<rparr> = Inr m2"
    by (simp only: code)
  with m2(2) show ?thesis
    by (simp add: run_def Compute_scan [OF assms False])
qed

section \<open>C2: the emitted code computes what \<^verbatim>\<open>Compute\<close> computes\<close>

text \<open>
  Claim C2. For every input vector \<open>V\<close> the input port carries, running the code of the
  loop strategy and running the code of the expanded strategy both end as \<^verbatim>\<open>Compute\<close>
  ends: with the same two output buffers on a non-empty input, and with the same read
  outside the input on an empty one. So does the code \<^verbatim>\<open>Compile\<close> emits, whichever strategy
  it selects.
\<close>

theorem compiled_code_agrees:
  assumes "GetValue s (input n) = Inr V"
  shows "run (CompileLoop n) V s = Compute n s
       \<and> run (CompileExpanded n) V s = Compute n s
       \<and> (\<forall>code. Compile IsPureVector compiler n = Inr code \<longrightarrow> run code V s = Compute n s)"
proof -
  note both = run_CompileLoop [OF assms] run_CompileExpanded [OF assms]
  then have "\<forall>code. Compile IsPureVector compiler n = Inr code \<longrightarrow> run code V s = Compute n s"
    by (auto simp: Compile_def split: sum.splits if_splits)
  with both show ?thesis by simp
qed

text \<open>
  The theorem on the input \<open>[3, 5, 5, 2]\<close> of a max node: both programs store the value 5
  and the index 1.
\<close>

theorem compiled_code_agrees_witness:
  "GetValue example_store (input (example_node True)) = Inr [3, 5, 5, 2]
   \<and> Compile (\<lambda>p. True) \<lparr> GetCompilerOptions = \<lparr> unrollLoops = False \<rparr> \<rparr> (example_node True)
       = Inr (CompileLoop (example_node True))
   \<and> observe (example_node True) (run (CompileLoop (example_node True)) [3, 5, 5, 2] example_store)
       = Inr (Some (Values [5]), Some (Ints [1]))
   \<and> observe (example_node True) (run (CompileExpanded (example_node True)) [3, 5, 5, 2] example_store)
       = Inr (Some (Values [5]), Some (Ints [1]))"
proof -
  have c: "Compile (\<lambda>p. True) \<lparr> GetCompilerOptions = \<lparr> unrollLoops = False \<rparr> \<rparr> (example_node True)
             = Inr (CompileLoop (example_node True))"
    by (simp add: Compile_def VerifyIsScalar_def example_node_def ExtremalValueNode_ctor_def)
  from compiled_code_agrees [OF example_GetValue, of True "\<lambda>p. True"
      "\<lparr> GetCompilerOptions = \<lparr> unrollLoops = False \<rparr> \<rparr>"]
  show ?thesis
    using c example_GetValue example_Compute_max by simp
qed

section \<open>C3: construction with a zero-size input\<close>

text \<open>
  Claim C3, as amended. The constructors of \<^verbatim>\<open>ExtremalValueNode\<close> check nothing: for every
  input linkage, of any size, construction yields the node with that linkage as its input
  and two outputs of size 1; the default constructor is the constructor at the zero-size
  input.
\<close>

theorem constructors_accept_every_input:
  "ExtremalValueNode_default nm mx this = ExtremalValueNode_ctor nm mx this []
   \<and> in_elements (input (ExtremalValueNode_ctor nm mx this inp)) = inp
   \<and> Size (input (ExtremalValueNode_ctor nm mx this inp)) = length inp
   \<and> isMax (ExtremalValueNode_ctor nm mx this inp) = mx
   \<and> out_size (val (ExtremalValueNode_ctor nm mx this inp)) = 1
   \<and> out_size (argVal (ExtremalValueNode_ctor nm mx this inp)) = 1"
  by (simp add: ExtremalValueNode_default_def ExtremalValueNode_ctor_def Size_def)

text \<open>
  Claim C3 as stated fails: construction with a zero-size input proceeds, and \<^verbatim>\<open>Compute\<close> is
  reached on the empty vector, where it dereferences \<^verbatim>\<open>end\<close>.
\<close>

theorem zero_size_input_reaches_Compute:
  "Size (input (ExtremalValueNode_ctor example_names True 1 [])) = 0
   \<and> Compute (ExtremalValueNode_ctor example_names True 1 []) example_store = Inl ReadOutOfRange"
proof -
  have "GetValue example_store (input (ExtremalValueNode_ctor example_names True 1 [])) = Inr []"
    by (simp add: GetValue_def ExtremalValueNode_ctor_def)
  then show ?thesis
    by (simp add: Compute_empty Size_def ExtremalValueNode_ctor_def)
qed

section \<open>C4: the choice of the emission strategy\<close>

lemma has_loop_CompileLoop: "has_loop (CompileLoop n)"
  by (simp add: has_loop_def CompileLoop_def Let_def)

lemma has_loop_CompileExpanded: "\<not> has_loop (CompileExpanded n)"
  by (auto simp: has_loop_def CompileExpanded_def Let_def list_ex_iff)

text \<open>
  Claim C4. When \<^verbatim>\<open>Compile\<close> emits code, it is the code of the loop strategy if and only if
  the input is a pure vector and the unroll-loops option is off, and the code of the
  expanded strategy in every other case; only the loop strategy emits a loop. The choice
  is a function of these two values.
\<close>

theorem Compile_selects_strategy:
  assumes "Compile IsPureVector compiler n = Inr code"
  shows "code = (if IsPureVector (input n) \<and> \<not> unrollLoops (GetCompilerOptions compiler)
                 then CompileLoop n else CompileExpanded n)
       \<and> has_loop code = (IsPureVector (input n) \<and> \<not> unrollLoops (GetCompilerOptions compiler))"
proof -
  from assms have c: "code = (if IsPureVector (input n) \<and> \<not> unrollLoops (GetCompilerOptions compiler)
                 then CompileLoop n else CompileExpanded n)"
    by (auto simp: Compile_def split: sum.splits if_splits)
  then show ?thesis
    by (simp add: has_loop_CompileLoop has_loop_CompileExpanded)
qed

text \<open>
  The theorem on a scalar-output node: a pure vector without unrolling gives the loop,
  unrolling or an input that is not a pure vector gives the expanded code.
\<close>

theorem Compile_selects_strategy_witness:
  "Compile (\<lambda>p. True) loop_compiler (example_node True) = Inr (CompileLoop (example_node True))
   \<and> has_loop (CompileLoop (example_node True))
   \<and> Compile (\<lambda>p. True) unrolling_compiler (example_node True) = Inr (CompileExpanded (example_node True))
   \<and> \<not> has_loop (CompileExpanded (example_node True))
   \<and> Compile (\<lambda>p. False) loop_compiler (example_node True) = Inr (CompileExpanded (example_node True))"
proof -
  have sc: "VerifyIsScalar (val (example_node True)) = Inr ()"
           "VerifyIsScalar (argVal (example_node True)) = Inr ()"
    by (simp_all add: VerifyIsScalar_def example_node_def ExtremalValueNode_ctor_def)
  have a: "Compile (\<lambda>p. True) loop_compiler (example_node True) = Inr (CompileLoop (example_node True))"
    by (simp add: Compile_def sc loop_compiler_def)
  have b: "Compile (\<lambda>p. True) unrolling_compiler (example_node True)
             = Inr (CompileExpanded (example_node True))"
    by (simp add: Compile_def sc unrolling_compiler_def)
  have c: "Compile (\<lambda>p. False) loop_compiler (example_node True)
             = Inr (CompileExpanded (example_node True))"
    by (simp add: Compile_def sc)
  from Compile_selects_strategy [OF a] Compile_selects_strategy [OF b] a b c
  show ?thesis by (simp add: loop_compiler_def unrolling_compiler_def)
qed

section \<open>C5: the shape check before emission\<close>

text \<open>
  Claim C5. \<^verbatim>\<open>Compile\<close> fails with the shape error exactly when the best-value or the
  best-index port is not of size 1, and emits code exactly when both are; a failed check
  leaves no code.
\<close>

theorem Compile_checks_shapes:
  "(Compile IsPureVector compiler n = Inl ScalarExpected)
     = (out_size (val n) \<noteq> 1 \<or> out_size (argVal n) \<noteq> 1)
   \<and> (\<exists>code. Compile IsPureVector compiler n = Inr code)
     = (out_size (val n) = 1 \<and> out_size (argVal n) = 1)"
  by (auto simp: Compile_def VerifyIsScalar_def split: sum.splits if_splits)

text \<open>
  The theorem on a node whose best-value port has size 2, where \<^verbatim>\<open>Compile\<close> fails, and on a
  node with scalar outputs, where it emits code.
\<close>

theorem Compile_checks_shapes_witness:
  "out_size (val oversized_node) = 2
   \<and> Compile (\<lambda>p. True) loop_compiler oversized_node = Inl ScalarExpected
   \<and> (\<exists>code. Compile (\<lambda>p. True) loop_compiler (example_node True) = Inr code)"
proof -
  have a: "out_size (val oversized_node) = 2" by (simp add: oversized_node_def)
  have b: "out_size (val (example_node True)) = 1 \<and> out_size (argVal (example_node True)) = 1"
    by (simp add: example_node_def ExtremalValueNode_ctor_def)
  from Compile_checks_shapes [of "\<lambda>p. True" loop_compiler oversized_node]
       Compile_checks_shapes [of "\<lambda>p. True" loop_compiler "example_node True"] a b
  show ?thesis by simp
qed

section \<open>C6: serialization round trip\<close>

lemma ReadFromArchive_WriteToArchive:
  assumes "distinct [inputPortName nm, valPortName nm, argValPortName nm]"
  shows "ReadFromArchive nm (WriteToArchive nm n a) m =
           Inr (m\<lparr>input := (input m)\<lparr>in_elements := in_elements (input n)\<rparr>,
                   val := (val m)\<lparr>out_size := out_size (val n)\<rparr>,
                   argVal := (argVal m)\<lparr>out_size := out_size (argVal n)\<rparr>\<rparr>)"
  using assms
  by (simp add: ReadFromArchive_def WriteToArchive_def Node_ReadFromArchive_def
        Node_WriteToArchive_def archive_input_def archive_output_def
        unarchive_input_def unarchive_output_def)

lemma dom_WriteToArchive:
  "dom (WriteToArchive nm n a) = dom a \<union> {inputPortName nm, valPortName nm, argValPortName nm}"
  by (auto simp: WriteToArchive_def Node_WriteToArchive_def archive_input_def archive_output_def)

lemma ReadFromArchive_fields:
  assumes "ReadFromArchive nm a m = Inr r"
  shows "{inputPortName nm, valPortName nm, argValPortName nm} \<subseteq> dom a"
  using assms
  by (auto simp: ReadFromArchive_def Node_ReadFromArchive_def unarchive_input_def
        unarchive_output_def split: sum.splits option.splits archived.splits)

lemma ReadFromArchive_only_fields:
  assumes "a' (inputPortName nm) = a (inputPortName nm)"
    and "a' (valPortName nm) = a (valPortName nm)"
    and "a' (argValPortName nm) = a (argValPortName nm)"
  shows "ReadFromArchive nm a' m = ReadFromArchive nm a m"
proof -
  have "unarchive_input (inputPortName nm) a' p = unarchive_input (inputPortName nm) a p" for p
    using assms(1) by (simp add: unarchive_input_def)
  moreover have "unarchive_output (valPortName nm) a' p = unarchive_output (valPortName nm) a p" for p
    using assms(2) by (simp add: unarchive_output_def)
  moreover have "unarchive_output (argValPortName nm) a' p = unarchive_output (argValPortName nm) a p" for p
    using assms(3) by (simp add: unarchive_output_def)
  ultimately show ?thesis
    by (simp add: ReadFromArchive_def Node_ReadFromArchive_def cong: sum.case_cong)
qed

text \<open>
  Claim C6. \<^verbatim>\<open>WriteToArchive\<close> adds exactly the three fields named by the input port name
  and the two output port names, and \<^verbatim>\<open>ReadFromArchive\<close> succeeds only on an archive that
  has these three fields, and looks at no other field. With pairwise distinct names, reading what was written into a
  node of the same variant succeeds, restores the input linkage and both output sizes,
  and gives a node whose \<^verbatim>\<open>Compute\<close> output is, on every state of the upstream buffers,
  the original's.
\<close>

theorem archive_round_trip:
  assumes "distinct [inputPortName nm, valPortName nm, argValPortName nm]"
    and "isMax m = isMax n"
    and "out_id (val n) \<noteq> out_id (argVal n)" and "out_id (val m) \<noteq> out_id (argVal m)"
  shows "dom (WriteToArchive nm n a) = dom a \<union> {inputPortName nm, valPortName nm, argValPortName nm}
       \<and> (\<forall>a r. ReadFromArchive nm a m = Inr r \<longrightarrow>
             {inputPortName nm, valPortName nm, argValPortName nm} \<subseteq> dom a)
       \<and> (\<forall>a a'. a' (inputPortName nm) = a (inputPortName nm)
                  \<and> a' (valPortName nm) = a (valPortName nm)
                  \<and> a' (argValPortName nm) = a (argValPortName nm) \<longrightarrow>
                  ReadFromArchive nm a' m = ReadFromArchive nm a m)
       \<and> (\<exists>n'. ReadFromArchive nm (WriteToArchive nm n a) m = Inr n'
             \<and> in_elements (input n') = in_elements (input n)
             \<and> out_size (val n') = out_size (val n)
             \<and> out_size (argVal n') = out_size (argVal n)
             \<and> (\<forall>s :: 'b::ord store. observe n' (Compute n' s) = observe n (Compute n s)))"
proof -
  let ?n' = "m\<lparr>input := (input m)\<lparr>in_elements := in_elements (input n)\<rparr>,
               val := (val m)\<lparr>out_size := out_size (val n)\<rparr>,
               argVal := (argVal m)\<lparr>out_size := out_size (argVal n)\<rparr>\<rparr>"
  have ids: "out_id (val ?n') \<noteq> out_id (argVal ?n')" using assms(4) by simp
  have g: "GetValue s (input ?n') = GetValue s (input n)" for s :: "'b store"
    by (simp add: GetValue_def)
  have mx: "isMax ?n' = isMax n" using assms(2) by simp
  have obs: "observe ?n' (Compute ?n' s) = observe n (Compute n s)" for s :: "'b store"
    by (simp only: observe_Compute [OF ids] observe_Compute [OF assms(3)] g mx)
  have rd: "ReadFromArchive nm (WriteToArchive nm n a) m = Inr ?n'"
    by (rule ReadFromArchive_WriteToArchive [OF assms(1)])
  have "\<exists>n'. ReadFromArchive nm (WriteToArchive nm n a) m = Inr n'
             \<and> in_elements (input n') = in_elements (input n)
             \<and> out_size (val n') = out_size (val n)
             \<and> out_size (argVal n') = out_size (argVal n)
             \<and> (\<forall>s :: 'b::ord store. observe n' (Compute n' s) = observe n (Compute n s))"
  proof (intro exI conjI allI)
    show "ReadFromArchive nm (WriteToArchive nm n a) m = Inr ?n'" by (rule rd)
    show "observe ?n' (Compute ?n' s) = observe n (Compute n s)" for s :: "'b store" by (rule obs)
  qed simp_all
  moreover have "dom (WriteToArchive nm n a)
                   = dom a \<union> {inputPortName nm, valPortName nm, argValPortName nm}"
    by (rule dom_WriteToArchive)
  moreover have "\<forall>a r. ReadFromArchive nm a m = Inr r \<longrightarrow>
             {inputPortName nm, valPortName nm, argValPortName nm} \<subseteq> dom a"
    using ReadFromArchive_fields [of nm _ m] by blast
  moreover have "\<forall>a a'. a' (inputPortName nm) = a (inputPortName nm)
                  \<and> a' (valPortName nm) = a (valPortName nm)
                  \<and> a' (argValPortName nm) = a (argValPortName nm) \<longrightarrow>
                  ReadFromArchive nm a' m = ReadFromArchive nm a m"
    using ReadFromArchive_only_fields [of _ nm _ m] by blast
  ultimately show ?thesis by blast
qed

text \<open>
  The theorem for the max node on \<open>[3, 5, 5, 2]\<close>, written to an empty archive and read
  into a default-constructed max node: the archive has the fields \<open>input\<close>, \<open>val\<close> and
  \<open>argVal\<close>, and the node read back computes the value 5 at index 1.
\<close>

theorem archive_round_trip_witness:
  "distinct [inputPortName example_names, valPortName example_names, argValPortName example_names]
   \<and> dom (WriteToArchive example_names (example_node True) (Map.empty :: int archive)) = {''input'', ''val'', ''argVal''}
   \<and> (\<exists>n'. ReadFromArchive example_names (WriteToArchive example_names (example_node True) (Map.empty :: int archive))
               (ExtremalValueNode_default example_names True 2) = Inr n'
          \<and> in_elements (input n') = whole_port (0, 0) 4
          \<and> observe n' (Compute n' example_store) = Inr (Some (Values [5]), Some (Ints [1])))"
proof -
  have d: "distinct [inputPortName example_names, valPortName example_names, argValPortName example_names]"
    by (simp add: example_names_def)
  have mx: "isMax (ExtremalValueNode_default example_names True 2) = isMax (example_node True)"
    by (simp add: ExtremalValueNode_default_def example_node_def ExtremalValueNode_ctor_def)
  have i1: "out_id (val (example_node True)) \<noteq> out_id (argVal (example_node True))"
    by (simp add: example_node_def ExtremalValueNode_ctor_def)
  have i2: "out_id (val (ExtremalValueNode_default example_names True 2))
              \<noteq> out_id (argVal (ExtremalValueNode_default example_names True 2))"
    by (simp add: ExtremalValueNode_default_def)
  have e: "in_elements (input (example_node True)) = whole_port (0, 0) 4"
    by (simp add: example_node_def ExtremalValueNode_ctor_def)
  note rt = archive_round_trip [OF d mx i1 i2, of "Map.empty :: int archive", where 'b = int]
  have nm: "inputPortName example_names = ''input''" "valPortName example_names = ''val''"
    "argValPortName example_names = ''argVal''"
    by (simp_all add: example_names_def)
  from rt have "dom (WriteToArchive example_names (example_node True) (Map.empty :: int archive))
                 = dom (Map.empty :: int archive)
                   \<union> {inputPortName example_names, valPortName example_names,
                      argValPortName example_names}"
    by (rule conjunct1)
  then have dm: "dom (WriteToArchive example_names (example_node True) (Map.empty :: int archive))
                 = {''input'', ''val'', ''argVal''}"
    unfolding nm by simp
  from rt obtain n' where
    n': "ReadFromArchive example_names (WriteToArchive example_names (example_node True) (Map.empty :: int archive))
               (ExtremalValueNode_default example_names True 2) = Inr n'"
        "in_elements (input n') = in_elements (input (example_node True))"
        "\<forall>s :: int store. observe n' (Compute n' s)
            = observe (example_node True) (Compute (example_node True) s)"
    by blast
  from n'(3) have "observe n' (Compute n' example_store) = Inr (Some (Values [5]), Some (Ints [1]))"
    by (simp add: example_Compute_max)
  with n'(1,2) e d dm show ?thesis by simp
qed

section \<open>C7: what \<^verbatim>\<open>Compute\<close> leaves unchanged\<close>

lemma GetElements_cong:
  "(\<forall>e\<in>set es. s' (fst e) = s (fst e)) \<Longrightarrow> GetElements s' es = GetElements s es"
  by (induction es) (simp_all add: GetElement_def cong: sum.case_cong)

text \<open>
  Claim C7. \<^verbatim>\<open>Compute\<close> returns the state of the output buffers and nothing else: the node,
  with its input port and its topology, is not part of its result. In that state every
  buffer other than those of the best-value and best-index ports is as before, and so is
  the value of every input port that does not observe these two ports.
\<close>

theorem Compute_frame:
  assumes "Compute n s = Inr s'"
  shows "(\<forall>p. p \<noteq> out_id (val n) \<and> p \<noteq> out_id (argVal n) \<longrightarrow> s' p = s p)
       \<and> (\<forall>q. (\<forall>e\<in>set (in_elements q). fst e \<noteq> out_id (val n) \<and> fst e \<noteq> out_id (argVal n))
              \<longrightarrow> GetValue s' q = GetValue s q)"
proof -
  from assms have frame: "\<forall>p. p \<noteq> out_id (val n) \<and> p \<noteq> out_id (argVal n) \<longrightarrow> s' p = s p"
    by (auto simp: Compute_def Let_def SetOutput_def split: sum.splits if_splits)
  then have "\<forall>q. (\<forall>e\<in>set (in_elements q). fst e \<noteq> out_id (val n) \<and> fst e \<noteq> out_id (argVal n))
              \<longrightarrow> GetValue s' q = GetValue s q"
    by (auto simp: GetValue_def intro!: GetElements_cong)
  with frame show ?thesis by simp
qed

text \<open>
  The theorem for the max node on \<open>[3, 5, 5, 2]\<close>: after \<^verbatim>\<open>Compute\<close> the upstream buffer, an
  unrelated port and the value of the node's input are unchanged.
\<close>

theorem Compute_frame_witness:
  "\<exists>s'. Compute (example_node True) example_store = Inr s'
       \<and> s' (0, 0) = Some (Values [3, 5, 5, 2])
       \<and> s' (2, 0) = None
       \<and> GetValue s' (input (example_node True)) = Inr [3, 5, 5, 2]"
proof -
  obtain s' where c: "Compute (example_node True) example_store = Inr s'"
    using Compute_nonempty [OF example_GetValue, of True] by simp
  have ids: "out_id (val (example_node True)) = (1, 0)" "out_id (argVal (example_node True)) = (1, 1)"
    "in_elements (input (example_node True)) = whole_port (0, 0) 4"
    by (simp_all add: example_node_def ExtremalValueNode_ctor_def)
  from Compute_frame [OF c] have
    f: "\<And>p. p \<noteq> (1, 0) \<Longrightarrow> p \<noteq> (1, 1) \<Longrightarrow> s' p = example_store p"
    and g: "\<And>q. \<forall>e\<in>set (in_elements q). fst e \<noteq> (1, 0) \<and> fst e \<noteq> (1, 1)
              \<Longrightarrow> GetValue s' q = GetValue example_store q"
    unfolding ids by blast+
  have "s' (0, 0) = Some (Values [3, 5, 5, 2])" using f [of "(0, 0)"] by (simp add: example_store_def)
  moreover have "s' (2, 0) = None" using f [of "(2, 0)"] by (simp add: example_store_def)
  moreover have "GetValue s' (input (example_node True)) = Inr [3, 5, 5, 2]"
    using g [of "input (example_node True)"] example_GetValue [of True]
    by (simp add: ids whole_port_def)
  ultimately show ?thesis using c by blast
qed

section \<open>C8: copying a node through a model transformer\<close>

lemma TransformPortElements_image:
  "TransformPortElements t es0 = Inr es \<Longrightarrow>
   map (\<lambda>e. (portImage t (fst e), snd e)) es0 = map (\<lambda>e. (Some (fst e), snd e)) es"
  by (induction es0 arbitrary: es) (auto split: option.splits sum.splits)

lemma Copy_result:
  fixes this :: ExtremalValueNode and nm :: PortNames and t :: ModelTransformer
    and es :: PortElements
  assumes "out_id (val this) \<noteq> out_id (argVal this)"
  defines "newNode \<equiv> ExtremalValueNode_ctor nm (isMax this) (nextNodeId t) es"
  defines "t' \<equiv> MapNodeOutput (argVal this) (argVal newNode)
                  (MapNodeOutput (val this) (val newNode)
                    (snd (AddNode (ExtremalValueNode_ctor nm (isMax this)) t es)))"
  shows "newModel t' = newModel t @ [newNode]"
    and "isMax newNode = isMax this"
    and "in_elements (input newNode) = es"
    and "portImage t' (out_id (val this)) = Some (out_id (val newNode))"
    and "portImage t' (out_id (argVal this)) = Some (out_id (argVal newNode))"
    and "GetValue s' (input newNode) = GetValue s (input this)
         \<Longrightarrow> observe newNode (Compute newNode s') = observe this (Compute this s)"
proof -
  show "newModel t' = newModel t @ [newNode]"
    by (simp add: t'_def newNode_def MapNodeOutput_def AddNode_def Let_def)
  show mx: "isMax newNode = isMax this"
    by (simp add: newNode_def ExtremalValueNode_ctor_def)
  show "in_elements (input newNode) = es"
    by (simp add: newNode_def ExtremalValueNode_ctor_def)
  show "portImage t' (out_id (val this)) = Some (out_id (val newNode))"
    using assms(1) by (simp add: t'_def MapNodeOutput_def)
  show "portImage t' (out_id (argVal this)) = Some (out_id (argVal newNode))"
    by (simp add: t'_def MapNodeOutput_def)
  have ids: "out_id (val newNode) \<noteq> out_id (argVal newNode)"
    by (simp add: newNode_def ExtremalValueNode_ctor_def)
  show "observe newNode (Compute newNode s') = observe this (Compute this s)"
    if "GetValue s' (input newNode) = GetValue s (input this)"
    by (simp only: observe_Compute [OF ids] observe_Compute [OF assms(1)] that mx)
qed

text \<open>
  Claim C8. When the transformer has an image for every port the input observes, copying
  an \<^verbatim>\<open>ArgMinNode\<close> (resp. an \<^verbatim>\<open>ArgMaxNode\<close>) succeeds: the new linkage is the old one with
  every port replaced by its image, one node of the same variant with that linkage is
  added to the new graph, and its best-value and best-index ports are registered as the
  images of the original's. Whenever the copy's input carries the values the original's
  input carries, the copy's \<^verbatim>\<open>Compute\<close> output is the original's.
\<close>

theorem Copy_preserves_node:
  assumes "TransformPortElements t (in_elements (input this)) = Inr es"
    and "out_id (val this) \<noteq> out_id (argVal this)"
  shows "map (\<lambda>e. (portImage t (fst e), snd e)) (in_elements (input this))
           = map (\<lambda>e. (Some (fst e), snd e)) es
       \<and> (\<not> isMax this \<longrightarrow>
            (\<exists>t' newNode. ArgMinNode_Copy nm this t = Inr t'
               \<and> newModel t' = newModel t @ [newNode]
               \<and> \<not> isMax newNode
               \<and> in_elements (input newNode) = es
               \<and> portImage t' (out_id (val this)) = Some (out_id (val newNode))
               \<and> portImage t' (out_id (argVal this)) = Some (out_id (argVal newNode))
               \<and> (\<forall>(s :: 'a::ord store) s'.
                     GetValue s' (input newNode) = GetValue s (input this) \<longrightarrow>
                     observe newNode (Compute newNode s') = observe this (Compute this s))))
       \<and> (isMax this \<longrightarrow>
            (\<exists>t' newNode. ArgMaxNode_Copy nm this t = Inr t'
               \<and> newModel t' = newModel t @ [newNode]
               \<and> isMax newNode
               \<and> in_elements (input newNode) = es
               \<and> portImage t' (out_id (val this)) = Some (out_id (val newNode))
               \<and> portImage t' (out_id (argVal this)) = Some (out_id (argVal newNode))
               \<and> (\<forall>(s :: 'a::ord store) s'.
                     GetValue s' (input newNode) = GetValue s (input this) \<longrightarrow>
                     observe newNode (Compute newNode s') = observe this (Compute this s))))"
proof (intro conjI impI)
  show "map (\<lambda>e. (portImage t (fst e), snd e)) (in_elements (input this))
           = map (\<lambda>e. (Some (fst e), snd e)) es"
    by (rule TransformPortElements_image [OF assms(1)])
next
  let ?newNode = "ExtremalValueNode_ctor nm (isMax this) (nextNodeId t) es"
  let ?t' = "MapNodeOutput (argVal this) (argVal ?newNode)
                  (MapNodeOutput (val this) (val ?newNode)
                    (snd (AddNode (ExtremalValueNode_ctor nm (isMax this)) t es)))"
  note r = Copy_result [OF assms(2), where nm = nm and t = t and es = es]
  {
    assume mn: "\<not> isMax this"
    have c: "ArgMinNode_Copy nm this t = Inr ?t'"
      using mn by (simp add: ArgMinNode_Copy_def ArgMinNode_ctor_def assms(1) AddNode_def Let_def)
    show "\<exists>t' newNode. ArgMinNode_Copy nm this t = Inr t'
               \<and> newModel t' = newModel t @ [newNode]
               \<and> \<not> isMax newNode
               \<and> in_elements (input newNode) = es
               \<and> portImage t' (out_id (val this)) = Some (out_id (val newNode))
               \<and> portImage t' (out_id (argVal this)) = Some (out_id (argVal newNode))
               \<and> (\<forall>(s :: 'a::ord store) s'.
                     GetValue s' (input newNode) = GetValue s (input this) \<longrightarrow>
                     observe newNode (Compute newNode s') = observe this (Compute this s))"
    proof (intro exI [of _ ?t'] exI [of _ ?newNode] conjI allI impI)
      show "ArgMinNode_Copy nm this t = Inr ?t'" by (rule c)
      show "\<not> isMax ?newNode" using r(2) mn by simp
    qed (rule r; assumption)+
  }
  {
    assume mx: "isMax this"
    have c: "ArgMaxNode_Copy nm this t = Inr ?t'"
      using mx by (simp add: ArgMaxNode_Copy_def ArgMaxNode_ctor_def assms(1) AddNode_def Let_def)
    show "\<exists>t' newNode. ArgMaxNode_Copy nm this t = Inr t'
               \<and> newModel t' = newModel t @ [newNode]
               \<and> isMax newNode
               \<and> in_elements (input newNode) = es
               \<and> portImage t' (out_id (val this)) = Some (out_id (val newNode))
               \<and> portImage t' (out_id (argVal this)) = Some (out_id (argVal newNode))
               \<and> (\<forall>(s :: 'a::ord store) s'.
                     GetValue s' (input newNode) = GetValue s (input this) \<longrightarrow>
                     observe newNode (Compute newNode s') = observe this (Compute this s))"
    proof (intro exI [of _ ?t'] exI [of _ ?newNode] conjI allI impI)
      show "ArgMaxNode_Copy nm this t = Inr ?t'" by (rule c)
      show "isMax ?newNode" using r(2) mx by simp
    qed (rule r; assumption)+
  }
qed

text \<open>
  The theorem for the max node on \<open>[3, 5, 5, 2]\<close>, copied by a transformer that maps its
  upstream port \<open>(0, 0)\<close> to \<open>(5, 0)\<close>: the copy is a max node, registered as the image of
  both outputs, and computes the value 5 at index 1 from the copied upstream buffer.
\<close>

theorem Copy_preserves_node_witness:
  "TransformPortElements example_transformer (in_elements (input (example_node True)))
     = Inr (whole_port (5, 0) 4)
   \<and> out_id (val (example_node True)) = (1, 0) \<and> out_id (argVal (example_node True)) = (1, 1)
   \<and> (\<exists>t' newNode. ArgMaxNode_Copy example_names (example_node True) example_transformer = Inr t'
          \<and> newModel t' = [newNode]
          \<and> isMax newNode
          \<and> portImage t' (1, 0) = Some (out_id (val newNode))
          \<and> portImage t' (1, 1) = Some (out_id (argVal newNode))
          \<and> observe newNode (Compute newNode copied_store) = Inr (Some (Values [5]), Some (Ints [1])))"
proof -
  have ids: "out_id (val (example_node True)) = (1, 0)" "out_id (argVal (example_node True)) = (1, 1)"
    and el: "in_elements (input (example_node True)) = whole_port (0, 0) 4"
    and mx: "isMax (example_node True)"
    by (simp_all add: example_node_def ExtremalValueNode_ctor_def)
  have tr: "TransformPortElements example_transformer (in_elements (input (example_node True)))
              = Inr (whole_port (5, 0) 4)"
    by (simp add: el whole_port_def example_transformer_def eval_nat_numeral)
  have ne: "out_id (val (example_node True)) \<noteq> out_id (argVal (example_node True))"
    by (simp add: ids)
  from Copy_preserves_node [OF tr ne, of example_names, where 'a = int] mx
  obtain t' newNode where
    c: "ArgMaxNode_Copy example_names (example_node True) example_transformer = Inr t'"
       "newModel t' = newModel example_transformer @ [newNode]"
       "isMax newNode"
       "in_elements (input newNode) = whole_port (5, 0) 4"
       "portImage t' (out_id (val (example_node True))) = Some (out_id (val newNode))"
       "portImage t' (out_id (argVal (example_node True))) = Some (out_id (argVal newNode))"
       "\<forall>(s :: int store) s'.
           GetValue s' (input newNode) = GetValue s (input (example_node True)) \<longrightarrow>
           observe newNode (Compute newNode s')
             = observe (example_node True) (Compute (example_node True) s)"
    by blast
  have "GetValue copied_store (input newNode) = Inr [3, 5, 5, 2]"
    by (rule GetValue_whole_port [of _ "(5, 0)"]) (simp_all add: copied_store_def c(4) eval_nat_numeral)
  with c(7) have "observe newNode (Compute newNode copied_store)
                    = observe (example_node True) (Compute (example_node True) example_store)"
    by (simp add: example_GetValue)
  then have o: "observe newNode (Compute newNode copied_store)
                  = Inr (Some (Values [5]), Some (Ints [1]))"
    by (simp add: example_Compute_max)
  have m: "newModel t' = [newNode]" using c(2) by (simp add: example_transformer_def)
  from c(1,3) c(5,6) [unfolded ids] m o tr ids show ?thesis by blast
qed

section \<open>C9: the coefficient table of a filter-bank node\<close>

lemma FilterBank_read_write:
  assumes "distinct [fb_inputPortName nm, fb_outputPortName nm, fb_filtersName nm]"
  shows "FilterBank_ReadFromArchive nm (FilterBank_WriteToArchive nm n a) m =
           Inr (m\<lparr>fb_input := (fb_input m)\<lparr>in_elements := in_elements (fb_input n)\<rparr>,
                   fb_output := (fb_output m)\<lparr>out_size := out_size (fb_output n)\<rparr>,
                   fb_filters := fb_filters n\<rparr>)"
  using assms
  by (simp add: FilterBank_ReadFromArchive_def FilterBank_WriteToArchive_def
        archive_input_def archive_output_def unarchive_input_def unarchive_output_def)

lemma fb_observe_Compute:
  "fb_observe n (FilterBank_Compute n s) =
     (case GetValue s (fb_input n) of
        Inl err \<Rightarrow> Inl err
      | Inr V \<Rightarrow> Inr (Some (Values (FilterBank_output (fb_filters n) V))))"
  by (simp add: fb_observe_def FilterBank_Compute_def SetOutput_def split: sum.splits)

text \<open>
  Claim C9. A filter-bank node reports stored state, and its coefficient table is part of
  the node: with pairwise distinct field names, reading what \<^verbatim>\<open>WriteToArchive\<close> wrote
  succeeds, restores the table element for element together with the input linkage and
  the output size, and gives a node whose \<^verbatim>\<open>Compute\<close> output is the original's on every
  state of the upstream buffers.
\<close>

theorem FilterBank_state_round_trip:
  assumes "distinct [fb_inputPortName nm, fb_outputPortName nm, fb_filtersName nm]"
  shows "HasState n
       \<and> (\<exists>n'. FilterBank_ReadFromArchive nm (FilterBank_WriteToArchive nm n a) m = Inr n'
             \<and> fb_filters n' = fb_filters n
             \<and> in_elements (fb_input n') = in_elements (fb_input n)
             \<and> out_size (fb_output n') = out_size (fb_output n)
             \<and> (\<forall>s. fb_observe n' (FilterBank_Compute n' s) = fb_observe n (FilterBank_Compute n s)))"
proof -
  let ?n' = "m\<lparr>fb_input := (fb_input m)\<lparr>in_elements := in_elements (fb_input n)\<rparr>,
               fb_output := (fb_output m)\<lparr>out_size := out_size (fb_output n)\<rparr>,
               fb_filters := fb_filters n\<rparr>"
  have g: "GetValue s (fb_input ?n') = GetValue s (fb_input n)" for s :: "'a store"
    by (simp add: GetValue_def)
  have f: "fb_filters ?n' = fb_filters n" by simp
  have "fb_observe ?n' (FilterBank_Compute ?n' s) = fb_observe n (FilterBank_Compute n s)"
    for s :: "'a store"
    by (simp only: fb_observe_Compute g f)
  then show ?thesis
    using FilterBank_read_write [OF assms, of n a m] by (simp add: HasState_def)
qed

text \<open>
  The theorem for the spec's example: the node with the single filter \<open>[1, 0, 1, 0]\<close>,
  written and read back into a node without filters, has that filter again and computes
  \<open>[6]\<close> from the input \<open>[2, 3, 4, 5]\<close>.
\<close>

theorem FilterBank_state_round_trip_witness:
  "distinct [fb_inputPortName example_fb_names, fb_outputPortName example_fb_names,
             fb_filtersName example_fb_names]
   \<and> (\<exists>n'. FilterBank_ReadFromArchive example_fb_names
               (FilterBank_WriteToArchive example_fb_names example_filter_bank_node Map.empty)
               empty_filter_bank_node = Inr n'
          \<and> fb_filters n' = [[1, 0, 1, 0]]
          \<and> fb_observe n' (FilterBank_Compute n' spectrum_store) = Inr (Some (Values [6])))"
proof -
  have d: "distinct [fb_inputPortName example_fb_names, fb_outputPortName example_fb_names,
             fb_filtersName example_fb_names]"
    by (simp add: example_fb_names_def)
  have g: "GetValue spectrum_store (fb_input example_filter_bank_node) = Inr [2, 3, 4, 5]"
    by (rule GetValue_whole_port [of _ "(0, 0)"])
       (simp_all add: spectrum_store_def example_filter_bank_node_def eval_nat_numeral)
  have "fb_observe example_filter_bank_node
             (FilterBank_Compute example_filter_bank_node spectrum_store)
          = Inr (Some (Values (FilterBank_output (fb_filters example_filter_bank_node) [2, 3, 4, 5])))"
    by (simp only: fb_observe_Compute g sum.case)
  moreover have "FilterBank_output (fb_filters example_filter_bank_node) [2, 3, 4, 5] = [6]"
    by (simp add: FilterBank_output_def example_filter_bank_node_def)
  ultimately have o: "fb_observe example_filter_bank_node
             (FilterBank_Compute example_filter_bank_node spectrum_store) = Inr (Some (Values [6]))"
    by simp
  from FilterBank_state_round_trip [OF d, of example_filter_bank_node Map.empty empty_filter_bank_node]
  obtain n' where
    n': "FilterBank_ReadFromArchive example_fb_names
               (FilterBank_WriteToArchive example_fb_names example_filter_bank_node Map.empty)
               empty_filter_bank_node = Inr n'"
        "fb_filters n' = fb_filters example_filter_bank_node"
        "\<forall>s. fb_observe n' (FilterBank_Compute n' s)
              = fb_observe example_filter_bank_node (FilterBank_Compute example_filter_bank_node s)"
    by blast
  have "fb_filters n' = [[1, 0, 1, 0]]" using n'(2) by (simp add: example_filter_bank_node_def)
  moreover have "fb_observe n' (FilterBank_Compute n' spectrum_store) = Inr (Some (Values [6]))"
    using n'(3) o by simp
  ultimately show ?thesis using d n'(1) by blast
qed

section \<open>C10: the type names of the two variants\<close>

lemma example_composite_name_round_trips: "round_trips example_composite_name"
proof -
  have "inj (\<lambda>t :: unit type_argument. case t of ValueType u \<Rightarrow> CHR ''v'' | true_type \<Rightarrow> CHR ''t''
                              | false_type \<Rightarrow> CHR ''f'')"
    by (auto simp: inj_on_def split: type_argument.splits)
  then show ?thesis
    by (auto simp: round_trips_def example_composite_name_def dest: inj_mapD [THEN injD])
qed

text \<open>
  Claim C10. With a composite type name that determines its type arguments, the max and
  the min variant of every element type have different type names; more precisely the
  type name of an \<^verbatim>\<open>ExtremalValueNode\<close> determines both its element type and its variant.
\<close>

theorem GetTypeName_tells_variant:
  assumes "round_trips GetCompositeTypeName"
  shows "GetTypeName GetCompositeTypeName vt True \<noteq> GetTypeName GetCompositeTypeName vt False
       \<and> (GetTypeName GetCompositeTypeName vt mx = GetTypeName GetCompositeTypeName vt' mx')
           = (vt = vt' \<and> mx = mx')"
proof -
  have eq: "(GetTypeName GetCompositeTypeName vt mx = GetTypeName GetCompositeTypeName vt' mx')
           = (vt = vt' \<and> mx = mx')" for vt vt' mx mx'
    using assms by (auto simp: GetTypeName_def round_trips_def)
  from eq [of vt True vt False] eq [of vt mx vt' mx'] show ?thesis by simp
qed

text \<open>
  The theorem for a composite name that appends one letter for each type argument.
\<close>

theorem GetTypeName_tells_variant_witness:
  "round_trips example_composite_name
   \<and> GetTypeName example_composite_name () True = ''ExtremalValueNodevt''
   \<and> GetTypeName example_composite_name () False = ''ExtremalValueNodevf''
   \<and> GetTypeName example_composite_name () True \<noteq> GetTypeName example_composite_name () False"
proof -
  from GetTypeName_tells_variant [OF example_composite_name_round_trips, of "()"]
  have "GetTypeName example_composite_name () True \<noteq> GetTypeName example_composite_name () False"
    by simp
  then show ?thesis
    using example_composite_name_round_trips
    by (simp add: GetTypeName_def example_composite_name_def)
qed

end
